theory Spec2Isabelle
  imports Complex_Main
begin

section \<open>Python and tensor primitives\<close>

text \<open>
  The two notebooks (the classification notebook and \<open>3_LanguageModel.ipynb\<close>) are
  embedded as pure functions. Every Python exception is a value of \<open>py_error\<close>, and a
  fallible function returns \<open>py_error + 'a\<close> with \<open>Inl\<close> for the raised exception.

  Tensors are lists. All tensors of the notebooks carry a batch dimension of size one
  (\<open>torch.zeros(1, n)\<close>, \<open>torch.zeros(len(line), 1, n)\<close>); it holds no information and
  is left out: a \<open>1 \<times> n\<close> tensor is a list of length \<open>n\<close>, a \<open>k \<times> 1 \<times> n\<close> tensor is a
  list of \<open>k\<close> such rows. The scalar type \<open>'a\<close> of a tensor is a type parameter with
  only the operations the code uses and no arithmetic law, so that nothing proved below
  depends on how floating-point arithmetic rounds.

  A Python one-character string is a \<open>char\<close> (eight bits; the vocabulary is ASCII), a
  string is a \<open>string\<close>. A loop bound such as \<open>max_length\<close> is a natural number.
\<close>

datatype py_error =
    IndexError | ValueError | RuntimeError | NameError | UnboundLocalError | AttributeError

text \<open>\<open>torch.zeros(1, n)\<close>.\<close>

definition zeros :: "nat \<Rightarrow> 'a::zero list" where
  "zeros n = replicate n 0"

text \<open>
  Python and torch indexing: an index \<open>i\<close> with \<open>0 \<le> i < n\<close> is itself, an index with
  \<open>-n \<le> i < 0\<close> counts from the end, anything else raises \<open>IndexError\<close>.
\<close>

definition norm_index :: "nat \<Rightarrow> int \<Rightarrow> py_error + nat" where
  "norm_index n i =
     (if 0 \<le> i \<and> i < int n then Inr (nat i)
      else if - int n \<le> i \<and> i < 0 then Inr (nat (int n + i))
      else Inl IndexError)"

text \<open>\<open>xs[i]\<close> and \<open>xs[i] = v\<close>.\<close>

definition getitem :: "'a list \<Rightarrow> int \<Rightarrow> py_error + 'a" where
  "getitem xs i =
     (case norm_index (length xs) i of Inl e \<Rightarrow> Inl e | Inr j \<Rightarrow> Inr (xs ! j))"

definition setitem :: "'a list \<Rightarrow> int \<Rightarrow> 'a \<Rightarrow> py_error + 'a list" where
  "setitem xs i v =
     (case norm_index (length xs) i of Inl e \<Rightarrow> Inl e | Inr j \<Rightarrow> Inr (xs[j := v]))"

text \<open>
  \<open>s.find(c)\<close> for a one-character string \<open>c\<close>: the index of the first occurrence, or
  \<open>-1\<close> when there is none. It never raises.
\<close>

primrec find_from :: "nat \<Rightarrow> string \<Rightarrow> char \<Rightarrow> int" where
  "find_from i [] c = - 1"
| "find_from i (x # xs) c = (if x = c then int i else find_from (Suc i) xs c)"

definition str_find :: "string \<Rightarrow> char \<Rightarrow> int" where
  "str_find s c = find_from 0 s c"

text \<open>\<open>xs.index(v)\<close> of a Python list: raises \<open>ValueError\<close> when \<open>v\<close> is absent.\<close>

primrec index_from :: "nat \<Rightarrow> 'a list \<Rightarrow> 'a \<Rightarrow> py_error + nat" where
  "index_from i [] v = Inl ValueError"
| "index_from i (x # xs) v = (if x = v then Inr i else index_from (Suc i) xs v)"

definition list_index :: "'a list \<Rightarrow> 'a \<Rightarrow> py_error + nat" where
  "list_index xs v = index_from 0 xs v"

text \<open>
  \<open>torch.argmax(output, 1)\<close> on a \<open>1 \<times> n\<close> tensor: the index of the largest entry, the
  first one among equals; an empty reduction dimension raises \<open>IndexError\<close>.
\<close>

primrec argmax_loop :: "'a::ord list \<Rightarrow> nat \<Rightarrow> nat \<Rightarrow> 'a \<Rightarrow> nat" where
  "argmax_loop [] i best bv = best"
| "argmax_loop (x # xs) i best bv =
     (if bv < x then argmax_loop xs (Suc i) i x else argmax_loop xs (Suc i) best bv)"

definition argmax :: "'a::ord list \<Rightarrow> py_error + nat" where
  "argmax xs = (case xs of [] \<Rightarrow> Inl IndexError | x # rest \<Rightarrow> Inr (argmax_loop rest 1 0 x))"


section \<open>The vocabulary\<close>

text \<open>
  Both notebooks start with
  \<^verbatim>\<open>all_letters = string.ascii_letters + " .,;'"\<close> and
  \<^verbatim>\<open>n_letters = len(all_letters)\<close>. The apostrophe is \<open>CHR 0x27\<close>.
\<close>

definition ascii_lowercase :: string where
  "ascii_lowercase = ''abcdefghijklmnopqrstuvwxyz''"

definition ascii_uppercase :: string where
  "ascii_uppercase = ''ABCDEFGHIJKLMNOPQRSTUVWXYZ''"

definition ascii_letters :: string where
  "ascii_letters = ascii_lowercase @ ascii_uppercase"

definition apostrophe :: char where
  "apostrophe = CHR 0x27"

definition all_letters :: string where
  "all_letters = ascii_letters @ '' .,;'' @ [apostrophe]"

definition n_letters :: nat where
  "n_letters = length all_letters"


section \<open>One-hot encoders\<close>

text \<open>
  Classification notebook:
  \<^verbatim>\<open>
  def letterToTensor(letter):
      tensor = torch.zeros(1, n_letters)
      index = all_letters.find(letter)
      tensor[0][index] = 1
      return tensor
  \<close>
\<close>

definition letterToTensor :: "char \<Rightarrow> py_error + 'a::{zero,one} list" where
  "letterToTensor letter =
     (let tensor = zeros n_letters;
          index = str_find all_letters letter
      in setitem tensor index 1)"

text \<open>
  \<^verbatim>\<open>
  def lineToTensor(line):
      tensor = torch.zeros(len(line), 1, n_letters)
      for i, letter in enumerate(line):
          index = all_letters.find(letter)
          tensor[i][0][index] = 1
      return tensor
  \<close>
  The loop runs over \<open>enumerate(line)\<close>; \<open>lineToTensor_loop i rest tensor\<close> is the loop
  from position \<open>i\<close> on, with \<open>rest\<close> the letters still to come.
\<close>

primrec lineToTensor_loop ::
  "nat \<Rightarrow> string \<Rightarrow> 'a::{zero,one} list list \<Rightarrow> py_error + 'a list list" where
  "lineToTensor_loop i [] tensor = Inr tensor"
| "lineToTensor_loop i (letter # rest) tensor =
     (let index = str_find all_letters letter in
      case getitem tensor (int i) of
        Inl e \<Rightarrow> Inl e
      | Inr row \<Rightarrow>
          (case setitem row index 1 of
             Inl e \<Rightarrow> Inl e
           | Inr row' \<Rightarrow> lineToTensor_loop (Suc i) rest (tensor[i := row'])))"

definition lineToTensor :: "string \<Rightarrow> py_error + 'a::{zero,one} list list" where
  "lineToTensor line =
     lineToTensor_loop 0 line (replicate (length line) (zeros n_letters))"

text \<open>
  Generation notebook:
  \<^verbatim>\<open>
  def inputTensor(line):
      tensor = torch.zeros(len(line), 1, n_letters)
      for li in range(len(line)):
          letter = line[li]
          tensor[li][0][all_letters.find(letter)] = 1
      return tensor
  \<close>
  \<open>inputTensor_loop line tensor lis\<close> runs the body for the indices \<open>lis\<close>.
\<close>

primrec inputTensor_loop ::
  "string \<Rightarrow> 'a::{zero,one} list list \<Rightarrow> nat list \<Rightarrow> py_error + 'a list list" where
  "inputTensor_loop line tensor [] = Inr tensor"
| "inputTensor_loop line tensor (li # lis) =
     (case getitem line (int li) of
        Inl e \<Rightarrow> Inl e
      | Inr letter \<Rightarrow>
          (case getitem tensor (int li) of
             Inl e \<Rightarrow> Inl e
           | Inr row \<Rightarrow>
               (case setitem row (str_find all_letters letter) 1 of
                  Inl e \<Rightarrow> Inl e
                | Inr row' \<Rightarrow> inputTensor_loop line (tensor[li := row']) lis)))"

definition inputTensor :: "string \<Rightarrow> py_error + 'a::{zero,one} list list" where
  "inputTensor line =
     inputTensor_loop line (replicate (length line) (zeros n_letters)) [0 ..< length line]"

text \<open>
  \<^verbatim>\<open>
  def targetTensor(line):
      letter_indexes = [all_letters.find(line[li]) for li in range(1, len(line))]
      letter_indexes.append(n_letters - 1) # EOS
      return torch.LongTensor(letter_indexes)
  \<close>
\<close>

definition targetTensor :: "string \<Rightarrow> int list" where
  "targetTensor line =
     map (\<lambda>li. str_find all_letters (line ! li)) [1 ..< length line] @ [int n_letters - 1]"

text \<open>
  The category list is read from the data directory at start-up, so it is a parameter.
  \<^verbatim>\<open>
  def categoryTensor(category):
      li = all_categories.index(category)
      tensor = torch.zeros(1, n_categories)
      tensor[0][li] = 1
      return tensor
  \<close>
\<close>

definition categoryTensor :: "string list \<Rightarrow> string \<Rightarrow> py_error + 'a::{zero,one} list" where
  "categoryTensor all_categories category =
     (case list_index all_categories category of
        Inl e \<Rightarrow> Inl e
      | Inr li \<Rightarrow> setitem (zeros (length all_categories)) (int li) 1)"

text \<open>
  The encoding the three encoders compute, as a total function: the one-hot vector of
  length \<open>n\<close> with its \<open>1\<close> at position \<open>k\<close>, and the position an arbitrary character is
  sent to.
\<close>

definition one_hot :: "nat \<Rightarrow> nat \<Rightarrow> 'a::{zero,one} list" where
  "one_hot n k = (replicate n 0)[k := 1]"

definition letter_pos :: "char \<Rightarrow> nat" where
  "letter_pos c =
     (if c \<in> set all_letters then length (takeWhile (\<lambda>x. x \<noteq> c) all_letters)
      else n_letters - 1)"



section \<open>Linear layers\<close>

text \<open>
  \<open>nn.Linear(in_features, out_features)\<close> holds a weight matrix of \<open>out_features\<close> rows
  and \<open>in_features\<close> columns and a bias of length \<open>out_features\<close>; applied to a
  \<open>1 \<times> in_features\<close> tensor it returns \<open>x W\<^sup>T + b\<close>, and it raises \<open>RuntimeError\<close> on
  an input of any other width. \<open>Linear_shape\<close> is the shape the constructor establishes.
\<close>

record 'a Linear =
  in_features :: nat
  out_features :: nat
  weight :: "'a list list"
  bias :: "'a list"

definition Linear_shape :: "nat \<Rightarrow> nat \<Rightarrow> 'a Linear \<Rightarrow> bool" where
  "Linear_shape n_in n_out l \<longleftrightarrow>
     in_features l = n_in \<and> out_features l = n_out \<and>
     length (weight l) = n_out \<and> (\<forall>w \<in> set (weight l). length w = n_in) \<and>
     length (bias l) = n_out"

definition dot :: "'a::{zero,plus,times} list \<Rightarrow> 'a list \<Rightarrow> 'a" where
  "dot w x = foldl (+) 0 (map2 (*) w x)"

definition affine :: "'a::{zero,plus,times} Linear \<Rightarrow> 'a list \<Rightarrow> 'a list" where
  "affine l x = map2 (\<lambda>w b. dot w x + b) (weight l) (bias l)"

definition linear :: "'a::{zero,plus,times} Linear \<Rightarrow> 'a list \<Rightarrow> py_error + 'a list" where
  "linear l x = (if length x = in_features l then Inr (affine l x) else Inl RuntimeError)"


section \<open>The classification cell and its runner\<close>

text \<open>
  Classification notebook:
  \<^verbatim>\<open>
  class RNN(nn.Module):
      def __init__(self, input_size, output_size):
          self.hidden_size = 128
          self.i2h = nn.Linear(input_size + self.hidden_size, self.hidden_size)
          self.i2o = nn.Linear(input_size + self.hidden_size, output_size)
      def forward(self, x, hidden):
          combined = torch.cat((x, hidden), 1)
          hidden = self.i2h(combined)
          output = self.i2o(combined)
          return output, hidden
      def initHidden(self):
          return torch.zeros(1, self.hidden_size)
  \<close>
  Both notebooks name their class \<open>RNN\<close>; the classification one carries the suffix
  \<open>_cls\<close> here. \<open>RNN_cls_shape V H C\<close> is what \<open>RNN(V, C)\<close> constructs (with \<open>H = 128\<close>
  in the notebook).
\<close>

record 'a RNN_cls =
  hidden_size_cls :: nat
  i2h_cls :: "'a Linear"
  i2o_cls :: "'a Linear"

definition RNN_cls_shape :: "nat \<Rightarrow> nat \<Rightarrow> nat \<Rightarrow> 'a RNN_cls \<Rightarrow> bool" where
  "RNN_cls_shape input_size hidden_sz output_size rnn \<longleftrightarrow>
     hidden_size_cls rnn = hidden_sz \<and>
     Linear_shape (input_size + hidden_sz) hidden_sz (i2h_cls rnn) \<and>
     Linear_shape (input_size + hidden_sz) output_size (i2o_cls rnn)"

definition forward_cls ::
  "'a::{zero,plus,times} RNN_cls \<Rightarrow> 'a list \<Rightarrow> 'a list \<Rightarrow> py_error + ('a list \<times> 'a list)" where
  "forward_cls rnn x hidden =
     (let combined = x @ hidden in
      case linear (i2h_cls rnn) combined of
        Inl e \<Rightarrow> Inl e
      | Inr hidden' \<Rightarrow>
          (case linear (i2o_cls rnn) combined of
             Inl e \<Rightarrow> Inl e
           | Inr output \<Rightarrow> Inr (output, hidden')))"

definition initHidden_cls :: "'a::zero RNN_cls \<Rightarrow> 'a list" where
  "initHidden_cls rnn = zeros (hidden_size_cls rnn)"

text \<open>
  \<^verbatim>\<open>
  def predict(input_line, n_predictions=5):
      hidden = rnn.initHidden()
      line_tensor = lineToTensor(input_line)
      for i in range(line_tensor.size()[0]):
          output, hidden = rnn(line_tensor[i], hidden)
      # Get top N categories
      output = torch.softmax(output, 1)
      ...
  \<close>
  \<open>output\<close> is a local variable of \<open>predict\<close>, unbound until the loop body has run once:
  it is an \<open>option\<close>, and reading it while unbound raises \<open>UnboundLocalError\<close>.
  \<open>predict_output\<close> is the value of \<open>output\<close> that \<open>predict\<close> hands to \<open>torch.softmax\<close>;
  the softmax, the top-k selection and the printing that follow are not modelled.
\<close>

primrec predict_loop ::
  "'a::{zero,plus,times} RNN_cls \<Rightarrow> 'a list list \<Rightarrow> nat list \<Rightarrow> 'a list option \<Rightarrow> 'a list \<Rightarrow>
   py_error + ('a list option \<times> 'a list)" where
  "predict_loop rnn line_tensor [] output hidden = Inr (output, hidden)"
| "predict_loop rnn line_tensor (i # is) output hidden =
     (case getitem line_tensor (int i) of
        Inl e \<Rightarrow> Inl e
      | Inr x \<Rightarrow>
          (case forward_cls rnn x hidden of
             Inl e \<Rightarrow> Inl e
           | Inr (output', hidden') \<Rightarrow> predict_loop rnn line_tensor is (Some output') hidden'))"

definition predict_output ::
  "'a::{zero,one,plus,times} RNN_cls \<Rightarrow> string \<Rightarrow> py_error + 'a list" where
  "predict_output rnn input_line =
     (let hidden = initHidden_cls rnn in
      case lineToTensor input_line of
        Inl e \<Rightarrow> Inl e
      | Inr line_tensor \<Rightarrow>
          (case predict_loop rnn line_tensor [0 ..< length line_tensor] None hidden of
             Inl e \<Rightarrow> Inl e
           | Inr (output, hidden') \<Rightarrow>
               (case output of None \<Rightarrow> Inl UnboundLocalError | Some out \<Rightarrow> Inr out)))"


section \<open>The generation cell\<close>

text \<open>
  \<open>3_LanguageModel.ipynb\<close>:
  \<^verbatim>\<open>
  class RNN(nn.Module):
      def __init__(self, input_size, hidden_size, output_size):
          self.hidden_size = hidden_size
          self.i2h = nn.Linear(n_categories + input_size + hidden_size, hidden_size)
          self.i2o = nn.Linear(n_categories + input_size + hidden_size, output_size)
          self.o2o = nn.Linear(hidden_size + output_size, output_size)
      def forward(self, category, x, hidden):
          input_combined = torch.cat((category, x, hidden), 1)
          hidden = self.i2h(input_combined)
          output = self.i2o(input_combined)
          output_combined = torch.cat((hidden, output), 1)
          output = self.o2o(output_combined)
          return output, hidden
      def initHidden(self):
          return torch.zeros(1, self.hidden_size)
  \<close>
  \<open>RNN_shape C V H W\<close> is what \<open>RNN(V, H, W)\<close> constructs when \<open>n_categories = C\<close>; the
  notebook builds \<open>RNN(n_letters, 128, n_letters)\<close>.
\<close>

record 'a RNN =
  hidden_size :: nat
  i2h :: "'a Linear"
  i2o :: "'a Linear"
  o2o :: "'a Linear"

definition RNN_shape :: "nat \<Rightarrow> nat \<Rightarrow> nat \<Rightarrow> nat \<Rightarrow> 'a RNN \<Rightarrow> bool" where
  "RNN_shape n_categories input_size hidden_sz output_size rnn \<longleftrightarrow>
     hidden_size rnn = hidden_sz \<and>
     Linear_shape (n_categories + input_size + hidden_sz) hidden_sz (i2h rnn) \<and>
     Linear_shape (n_categories + input_size + hidden_sz) output_size (i2o rnn) \<and>
     Linear_shape (hidden_sz + output_size) output_size (o2o rnn)"

definition forward ::
  "'a::{zero,plus,times} RNN \<Rightarrow> 'a list \<Rightarrow> 'a list \<Rightarrow> 'a list \<Rightarrow>
   py_error + ('a list \<times> 'a list)" where
  "forward rnn category x hidden =
     (let input_combined = category @ x @ hidden in
      case linear (i2h rnn) input_combined of
        Inl e \<Rightarrow> Inl e
      | Inr hidden' \<Rightarrow>
          (case linear (i2o rnn) input_combined of
             Inl e \<Rightarrow> Inl e
           | Inr output \<Rightarrow>
               (let output_combined = hidden' @ output in
                case linear (o2o rnn) output_combined of
                  Inl e \<Rightarrow> Inl e
                | Inr output' \<Rightarrow> Inr (output', hidden'))))"

definition initHidden :: "'a::zero RNN \<Rightarrow> 'a list" where
  "initHidden rnn = zeros (hidden_size rnn)"


section \<open>Word generation\<close>

text \<open>
  \<^verbatim>\<open>
  def sample_word(start_letter, category):
      category_tensor = categoryTensor(category)
      x = inputTensor(start_letter)
      hidden = rnn.initHidden()
      output_name = start_letter
      for i in range(max_length):
          output, hidden = rnn(category_tensor, x[0], hidden)
          top_i = torch.argmax(output, 1)
          if top_i == n_letters - 1:
              break
          letter = all_letters[top_i]
          output_name += letter
          x = inputTensor(letter)
      return output_name
  \<close>
  The globals \<open>rnn\<close>, \<open>all_categories\<close> and \<open>max_length\<close> are parameters. The loop
  counter is not read in the body, so \<open>sample_loop\<close> counts the remaining iterations
  down.
\<close>

primrec sample_loop ::
  "'a::{zero,one,plus,times,ord} RNN \<Rightarrow> 'a list \<Rightarrow> nat \<Rightarrow> 'a list list \<Rightarrow> 'a list \<Rightarrow> string \<Rightarrow>
   py_error + string" where
  "sample_loop rnn category_tensor 0 x hidden output_name = Inr output_name"
| "sample_loop rnn category_tensor (Suc n) x hidden output_name =
     (case getitem x 0 of
        Inl e \<Rightarrow> Inl e
      | Inr x0 \<Rightarrow>
          (case forward rnn category_tensor x0 hidden of
             Inl e \<Rightarrow> Inl e
           | Inr (output, hidden') \<Rightarrow>
               (case argmax output of
                  Inl e \<Rightarrow> Inl e
                | Inr top_i \<Rightarrow>
                    if top_i = n_letters - 1 then Inr output_name
                    else
                      (case getitem all_letters (int top_i) of
                         Inl e \<Rightarrow> Inl e
                       | Inr letter \<Rightarrow>
                           (case inputTensor [letter] of
                              Inl e \<Rightarrow> Inl e
                            | Inr x' \<Rightarrow>
                                sample_loop rnn category_tensor n x' hidden'
                                  (output_name @ [letter]))))))"

definition sample_word ::
  "'a::{zero,one,plus,times,ord} RNN \<Rightarrow> string list \<Rightarrow> nat \<Rightarrow> string \<Rightarrow> string \<Rightarrow>
   py_error + string" where
  "sample_word rnn all_categories max_length start_letter category =
     (case categoryTensor all_categories category of
        Inl e \<Rightarrow> Inl e
      | Inr category_tensor \<Rightarrow>
          (case inputTensor start_letter of
             Inl e \<Rightarrow> Inl e
           | Inr x \<Rightarrow>
               sample_loop rnn category_tensor max_length x (initHidden rnn) start_letter))"

text \<open>
  The multi-seed cell of the notebook, the spec's \<open>generate\<close>:
  \<^verbatim>\<open>
  category_tensor = categoryTensor(category)
  hidden = rnn.initHidden()
  output_name = start_letters
  # feed all given letters into the network
  for i in range(len(start_letters)):
      x = inputTensor(start_letters[i])
      output, hidden = rnn(category_tensor, x[0], hidden)
  for i in range(max_length):
      top_i = torch.argmax(output, 1)
      if top_i == n_letters - 1:
          break
      letter = all_letters[top_i]
      output_name += letter
      x = inputTensor(letter)
      output, hidden = rnn(category_tensor, x[0], hidden)
  output_name
  \<close>
  The cell runs at top level, so \<open>output\<close> is a notebook global: \<open>output0\<close> is its value
  before the cell runs (\<open>None\<close> when it is unbound, and reading it then raises
  \<open>NameError\<close>). \<open>feed_loop\<close> is the first loop, \<open>decode_loop\<close> the second.
\<close>

primrec feed_loop ::
  "'a::{zero,one,plus,times} RNN \<Rightarrow> 'a list \<Rightarrow> string \<Rightarrow> nat list \<Rightarrow> 'a list option \<Rightarrow> 'a list \<Rightarrow>
   py_error + ('a list option \<times> 'a list)" where
  "feed_loop rnn category_tensor start_letters [] output hidden = Inr (output, hidden)"
| "feed_loop rnn category_tensor start_letters (i # is) output hidden =
     (case getitem start_letters (int i) of
        Inl e \<Rightarrow> Inl e
      | Inr letter \<Rightarrow>
          (case inputTensor [letter] of
             Inl e \<Rightarrow> Inl e
           | Inr x \<Rightarrow>
               (case getitem x 0 of
                  Inl e \<Rightarrow> Inl e
                | Inr x0 \<Rightarrow>
                    (case forward rnn category_tensor x0 hidden of
                       Inl e \<Rightarrow> Inl e
                     | Inr (output', hidden') \<Rightarrow>
                         feed_loop rnn category_tensor start_letters is (Some output') hidden'))))"

primrec decode_loop ::
  "'a::{zero,one,plus,times,ord} RNN \<Rightarrow> 'a list \<Rightarrow> nat \<Rightarrow> 'a list option \<Rightarrow> 'a list \<Rightarrow> string \<Rightarrow>
   py_error + string" where
  "decode_loop rnn category_tensor 0 output hidden output_name = Inr output_name"
| "decode_loop rnn category_tensor (Suc n) output hidden output_name =
     (case output of
        None \<Rightarrow> Inl NameError
      | Some out \<Rightarrow>
          (case argmax out of
             Inl e \<Rightarrow> Inl e
           | Inr top_i \<Rightarrow>
               if top_i = n_letters - 1 then Inr output_name
               else
                 (case getitem all_letters (int top_i) of
                    Inl e \<Rightarrow> Inl e
                  | Inr letter \<Rightarrow>
                      (case inputTensor [letter] of
                         Inl e \<Rightarrow> Inl e
                       | Inr x \<Rightarrow>
                           (case getitem x 0 of
                              Inl e \<Rightarrow> Inl e
                            | Inr x0 \<Rightarrow>
                                (case forward rnn category_tensor x0 hidden of
                                   Inl e \<Rightarrow> Inl e
                                 | Inr (output', hidden') \<Rightarrow>
                                     decode_loop rnn category_tensor n (Some output') hidden'
                                       (output_name @ [letter])))))))"

definition generate ::
  "'a::{zero,one,plus,times,ord} RNN \<Rightarrow> string list \<Rightarrow> nat \<Rightarrow> 'a list option \<Rightarrow> string \<Rightarrow> string \<Rightarrow>
   py_error + string" where
  "generate rnn all_categories max_length output0 start_letters category =
     (case categoryTensor all_categories category of
        Inl e \<Rightarrow> Inl e
      | Inr category_tensor \<Rightarrow>
          (case feed_loop rnn category_tensor start_letters [0 ..< length start_letters]
                  output0 (initHidden rnn) of
             Inl e \<Rightarrow> Inl e
           | Inr (output, hidden) \<Rightarrow>
               decode_loop rnn category_tensor max_length output hidden start_letters))"


section \<open>The generation trainer\<close>

text \<open>
  \<^verbatim>\<open>
  criterion = nn.CrossEntropyLoss()
  optimizer = torch.optim.SGD(rnn.parameters(), lr=0.005)

  def train(category_tensor, input_line_tensor, target_line_tensor):
      target_line_tensor.unsqueeze_(-1)
      hidden = rnn.initHidden()
      rnn.zero_grad()
      loss = 0
      for i in range(input_line_tensor.size(0)):
          output, hidden = rnn(category_tensor, input_line_tensor[i], hidden)
          l = criterion(output, target_line_tensor[i])
          loss += l
      loss.backward()
      optimizer.step()
      return output, loss.item() / input_line_tensor.size(0)
  \<close>
  \<open>train\<close> works on shared state: the parameters of the global cell \<open>rnn\<close>, their
  gradients (the \<open>.grad\<close> tensors), and the optimizer's momentum buffers. The state
  \<open>trainer\<close> holds the three, a counter \<open>n_updates\<close> of the in-place writes to the
  parameters, and a log of the torch calls made, in order. Gradients and momentum
  buffers have the shape of the parameters, and \<open>None\<close> stands for a tensor that has
  not been allocated yet.

  In the log, \<open>CellStep c x h\<close> is a forward pass on category \<open>c\<close>, input \<open>x\<close> and
  hidden state \<open>h\<close>; \<open>Criterion o t\<close> is the loss of output \<open>o\<close> against target \<open>t\<close>;
  \<open>Backward s\<close> is \<open>backward\<close> called on a loss of value \<open>s\<close>.
\<close>

datatype 'a call =
    is_ZeroGrad: ZeroGrad
  | is_CellStep: CellStep "'a list" "'a list" "'a list"
  | is_Criterion: Criterion "'a list" int
  | is_Backward: Backward 'a
  | is_OptimizerStep: OptimizerStep

record 'a trainer =
  cell_params :: "'a RNN"
  cell_grads :: "'a RNN option"
  momentum_buffer :: "'a RNN option"
  n_updates :: nat
  call_log :: "'a call list"

text \<open>Entry by entry operations on two parameter sets of the same shape.\<close>

definition map2_Linear :: "('a \<Rightarrow> 'a \<Rightarrow> 'a) \<Rightarrow> 'a Linear \<Rightarrow> 'a Linear \<Rightarrow> 'a Linear" where
  "map2_Linear f p g =
     p\<lparr>weight := map2 (map2 f) (weight p) (weight g), bias := map2 f (bias p) (bias g)\<rparr>"

definition map2_RNN :: "('a \<Rightarrow> 'a \<Rightarrow> 'a) \<Rightarrow> 'a RNN \<Rightarrow> 'a RNN \<Rightarrow> 'a RNN" where
  "map2_RNN f p g =
     p\<lparr>i2h := map2_Linear f (i2h p) (i2h g),
       i2o := map2_Linear f (i2o p) (i2o g),
       o2o := map2_Linear f (o2o p) (o2o g)\<rparr>"

text \<open>
  \<open>rnn.zero_grad()\<close> overwrites every allocated gradient with zeros (the torch 1.x of
  the notebooks; later versions release the gradients instead) and leaves the
  parameters alone.
\<close>

definition zero_grad :: "'a::zero trainer \<Rightarrow> 'a trainer" where
  "zero_grad st =
     st\<lparr>cell_grads := map_option (\<lambda>g. map2_RNN (\<lambda>a b. 0) g g) (cell_grads st),
        call_log := call_log st @ [ZeroGrad]\<rparr>"

text \<open>
  A loss tensor carries the graph that autograd has recorded for it: here the list of
  the cell steps it depends on, each with its category, input, incoming hidden state,
  output and target, in the order they ran. \<open>loss.backward()\<close> differentiates the loss
  through that whole graph with respect to the parameters and adds the result to the
  gradients; it leaves the parameters alone. The differentiation itself is torch's
  and is the uninterpreted parameter \<open>autograd\<close>.
\<close>

type_synonym 'a tape = "('a list \<times> 'a list \<times> 'a list \<times> 'a list \<times> int) list"

definition backward ::
  "('a RNN \<Rightarrow> 'a tape \<Rightarrow> 'a RNN) \<Rightarrow> 'a \<times> 'a tape \<Rightarrow> 'a::plus trainer \<Rightarrow> 'a trainer" where
  "backward autograd loss st =
     (let g = autograd (cell_params st) (snd loss) in
      st\<lparr>cell_grads :=
           Some (case cell_grads st of None \<Rightarrow> g | Some a \<Rightarrow> map2_RNN (+) a g),
         call_log := call_log st @ [Backward (fst loss)]\<rparr>)"

text \<open>
  \<open>torch.optim.SGD(params, lr=...)\<close>: every other hyperparameter takes torch's default.
  \<open>optimizer.step()\<close> skips parameters without a gradient; otherwise, entry by entry,
  \<^verbatim>\<open>
  d_p = p.grad
  if weight_decay != 0: d_p = d_p.add(p, alpha=weight_decay)
  if momentum != 0:
      if buf is None: buf = clone(d_p)
      else: buf.mul_(momentum).add_(d_p, alpha=1 - dampening)
      if nesterov: d_p = d_p.add(buf, alpha=momentum)
      else: d_p = buf
  p.add_(d_p, alpha=-lr)
  \<close>
  where \<open>a.add(b, alpha=c)\<close> is \<open>a + c * b\<close>. The last line is the one place where the
  parameters are written.
\<close>

record 'a SGD =
  lr :: 'a
  momentum :: 'a
  dampening :: 'a
  weight_decay :: 'a
  nesterov :: bool

definition SGD_init :: "'a \<Rightarrow> 'a::zero SGD" where
  "SGD_init lr_value =
     \<lparr>lr = lr_value, momentum = 0, dampening = 0, weight_decay = 0, nesterov = False\<rparr>"

definition optimizer_step ::
  "'a::{zero,one,plus,minus,uminus,times} SGD \<Rightarrow> 'a trainer \<Rightarrow> 'a trainer" where
  "optimizer_step opt st =
     (case cell_grads st of
        None \<Rightarrow> st\<lparr>call_log := call_log st @ [OptimizerStep]\<rparr>
      | Some grad \<Rightarrow>
          (let d1 = (if weight_decay opt \<noteq> 0
                     then map2_RNN (\<lambda>d p. d + weight_decay opt * p) grad (cell_params st)
                     else grad);
               buf = (if momentum opt \<noteq> 0
                      then Some (case momentum_buffer st of
                                   None \<Rightarrow> d1
                                 | Some b \<Rightarrow>
                                     map2_RNN (\<lambda>b d. momentum opt * b + (1 - dampening opt) * d)
                                       b d1)
                      else momentum_buffer st);
               d2 = (if momentum opt \<noteq> 0
                     then (case buf of
                             None \<Rightarrow> d1
                           | Some b \<Rightarrow>
                               if nesterov opt
                               then map2_RNN (\<lambda>d b. d + momentum opt * b) d1 b
                               else b)
                     else d1)
           in st\<lparr>cell_params := map2_RNN (\<lambda>p d. p + (- lr opt) * d) (cell_params st) d2,
                 momentum_buffer := buf,
                 n_updates := Suc (n_updates st),
                 call_log := call_log st @ [OptimizerStep]\<rparr>))"

text \<open>
  \<open>nn.CrossEntropyLoss\<close> on one \<open>1 \<times> n\<close> score row and one class index: the value is the
  parameter \<open>crit\<close> (a floating-point logarithm of a softmax, left uninterpreted); a
  target outside \<open>[0, n)\<close> raises \<open>IndexError\<close>, except the default \<open>ignore_index\<close>
  \<open>-100\<close>.
\<close>

definition criterion ::
  "('a list \<Rightarrow> int \<Rightarrow> 'a) \<Rightarrow> 'a list \<Rightarrow> int \<Rightarrow> py_error + 'a" where
  "criterion crit output target =
     (if (0 \<le> target \<and> target < int (length output)) \<or> target = - 100
      then Inr (crit output target) else Inl IndexError)"

text \<open>
  The loop state is \<open>(output, hidden, loss, calls)\<close>. \<open>loss\<close> starts as the Python
  integer \<open>0\<close>, here \<open>None\<close>, and is a tensor, a value with its graph, from the first
  \<open>loss += l\<close> on (\<open>0 + l\<close> is computed by the tensor as \<open>l + 0\<close>). The forward passes read
  the parameters \<open>rnn\<close> and write nothing.
\<close>

primrec train_loop ::
  "('a list \<Rightarrow> int \<Rightarrow> 'a) \<Rightarrow> 'a::{zero,plus,times} RNN \<Rightarrow> 'a list \<Rightarrow> 'a list list \<Rightarrow> int list \<Rightarrow>
   nat list \<Rightarrow> 'a list option \<times> 'a list \<times> ('a \<times> 'a tape) option \<times> 'a call list \<Rightarrow>
   py_error + ('a list option \<times> 'a list \<times> ('a \<times> 'a tape) option \<times> 'a call list)" where
  "train_loop crit rnn category_tensor input_line_tensor target_line_tensor [] st = Inr st"
| "train_loop crit rnn category_tensor input_line_tensor target_line_tensor (i # is) st =
     (case st of (output, hidden, loss, calls) \<Rightarrow>
        (case getitem input_line_tensor (int i) of
           Inl e \<Rightarrow> Inl e
         | Inr x \<Rightarrow>
             (case forward rnn category_tensor x hidden of
                Inl e \<Rightarrow> Inl e
              | Inr (output', hidden') \<Rightarrow>
                  (case getitem target_line_tensor (int i) of
                     Inl e \<Rightarrow> Inl e
                   | Inr t \<Rightarrow>
                       (case criterion crit output' t of
                          Inl e \<Rightarrow> Inl e
                        | Inr l \<Rightarrow>
                            train_loop crit rnn category_tensor input_line_tensor
                              target_line_tensor is
                              (Some output', hidden',
                               Some (case loss of
                                       None \<Rightarrow>
                                         (l + 0, [(category_tensor, x, hidden, output', t)])
                                     | Some (s, tape) \<Rightarrow>
                                         (s + l,
                                          tape @ [(category_tensor, x, hidden, output', t)])),
                               calls @ [CellStep category_tensor x hidden,
                                        Criterion output' t]))))))"

primrec scalar_of_nat :: "nat \<Rightarrow> 'a::{zero,one,plus}" where
  "scalar_of_nat 0 = 0"
| "scalar_of_nat (Suc n) = scalar_of_nat n + 1"

text \<open>
  \<open>train\<close> returns what the Python returns, \<open>(output, loss.item() / n)\<close>, and the state
  it leaves. \<open>loss.backward()\<close> on the integer \<open>0\<close> raises \<open>AttributeError\<close>.
\<close>

definition train ::
  "('a list \<Rightarrow> int \<Rightarrow> 'a) \<Rightarrow> ('a RNN \<Rightarrow> 'a tape \<Rightarrow> 'a RNN) \<Rightarrow>
   'a::{zero,one,plus,minus,uminus,times,inverse} SGD \<Rightarrow> 'a trainer \<Rightarrow>
   'a list \<Rightarrow> 'a list list \<Rightarrow> int list \<Rightarrow> py_error + (('a list \<times> 'a) \<times> 'a trainer)" where
  "train crit autograd optimizer st category_tensor input_line_tensor target_line_tensor =
     (let hidden = initHidden (cell_params st);
          st1 = zero_grad st
      in case train_loop crit (cell_params st1) category_tensor input_line_tensor
                target_line_tensor [0 ..< length input_line_tensor]
                (None, hidden, None, call_log st1) of
           Inl e \<Rightarrow> Inl e
         | Inr (output, hidden', loss, calls) \<Rightarrow>
             (case loss of
                None \<Rightarrow> Inl AttributeError
              | Some l \<Rightarrow>
                  (let st2 = backward autograd l (st1\<lparr>call_log := calls\<rparr>);
                       st3 = optimizer_step optimizer st2
                   in case output of
                        None \<Rightarrow> Inl UnboundLocalError
                      | Some out \<Rightarrow>
                          Inr ((out, fst l / scalar_of_nat (length input_line_tensor)),
                               st3))))"

text \<open>
  The training loop calls \<open>train(*randomTrainingExample())\<close>, where
  \<^verbatim>\<open>
  def randomTrainingExample():
      category, line = randomTrainingPair()
      category_tensor = categoryTensor(category)
      input_line_tensor = inputTensor(line)
      target_line_tensor = targetTensor(line)
      return category_tensor, input_line_tensor, target_line_tensor
  \<close>
  \<open>train_example\<close> is that call for the pair \<open>(category, line)\<close> drawn.
\<close>

definition train_example ::
  "('a list \<Rightarrow> int \<Rightarrow> 'a) \<Rightarrow> ('a RNN \<Rightarrow> 'a tape \<Rightarrow> 'a RNN) \<Rightarrow>
   'a::{zero,one,plus,minus,uminus,times,inverse} SGD \<Rightarrow> 'a trainer \<Rightarrow>
   string list \<Rightarrow> string \<Rightarrow> string \<Rightarrow> py_error + (('a list \<times> 'a) \<times> 'a trainer)" where
  "train_example crit autograd optimizer st all_categories category line =
     (case categoryTensor all_categories category of
        Inl e \<Rightarrow> Inl e
      | Inr category_tensor \<Rightarrow>
          (case inputTensor line of
             Inl e \<Rightarrow> Inl e
           | Inr input_line_tensor \<Rightarrow>
               train crit autograd optimizer st category_tensor input_line_tensor
                 (targetTensor line)))"


section \<open>Specification-level functions\<close>

text \<open>
  The functions of this section are not code of the notebooks: they are the total,
  error-free functions that the theorems below compare the code with.
  \<open>encode\<close> is the row every encoder writes for a character.
\<close>

definition encode :: "char \<Rightarrow> 'a::{zero,one} list" where
  "encode c = one_hot n_letters (letter_pos c)"


text \<open>
  One step of each cell without the shape checks: on inputs of the right widths the
  code's \<open>forward\<close> computes exactly this (shown below).
\<close>

definition cell_cls ::
  "'a::{zero,plus,times} RNN_cls \<Rightarrow> 'a list \<Rightarrow> 'a list \<Rightarrow> 'a list \<times> 'a list" where
  "cell_cls rnn x hidden =
     (affine (i2o_cls rnn) (x @ hidden), affine (i2h_cls rnn) (x @ hidden))"

definition cell ::
  "'a::{zero,plus,times} RNN \<Rightarrow> 'a list \<Rightarrow> 'a list \<Rightarrow> 'a list \<Rightarrow> 'a list \<times> 'a list" where
  "cell rnn category x hidden =
     (let new_hidden = affine (i2h rnn) (category @ x @ hidden);
          intermediate = affine (i2o rnn) (category @ x @ hidden)
      in (affine (o2o rnn) (new_hidden @ intermediate), new_hidden))"

text \<open>
  Classification in the words of the spec: the hidden state starts at zero and is
  carried through the vectors in input order; the result is the output of the final
  step alone, computed from the last vector and the hidden state that the vectors
  before it have produced.
\<close>

definition classify :: "'a::{zero,plus,times} RNN_cls \<Rightarrow> 'a list list \<Rightarrow> 'a list" where
  "classify rnn xs =
     fst (cell_cls rnn (last xs)
            (foldl (\<lambda>hidden x. snd (cell_cls rnn x hidden))
               (zeros (hidden_size_cls rnn)) (butlast xs)))"

text \<open>
  Greedy decoding in the words of the spec. \<open>argmax_index\<close> is the index of the highest
  score. \<open>warm_up\<close> feeds the seed symbols through the cell in order from the zero
  hidden state and keeps the last output and hidden state. \<open>greedy_decode\<close> makes at
  most \<open>n\<close> iterations: each selects the argmax index of the current output; at the
  end-of-sequence index it stops and appends nothing; otherwise it appends the index,
  feeds its one-hot vector to the cell with the current hidden state and continues
  with the new output and hidden state.
\<close>

definition argmax_index :: "'a::ord list \<Rightarrow> nat" where
  "argmax_index xs = argmax_loop (tl xs) 1 0 (hd xs)"

definition eos_index :: nat where
  "eos_index = n_letters - 1"

definition warm_up ::
  "'a::{zero,one,plus,times} RNN \<Rightarrow> 'a list \<Rightarrow> string \<Rightarrow> 'a list \<times> 'a list" where
  "warm_up rnn category seed =
     foldl (\<lambda>(output, hidden) c. cell rnn category (encode c) hidden)
       ([], zeros (hidden_size rnn)) seed"

primrec greedy_decode ::
  "'a::{zero,one,plus,times,ord} RNN \<Rightarrow> 'a list \<Rightarrow> nat \<Rightarrow> 'a list \<Rightarrow> 'a list \<Rightarrow> nat list" where
  "greedy_decode rnn category 0 output hidden = []"
| "greedy_decode rnn category (Suc n) output hidden =
     (let k = argmax_index output in
      if k = eos_index then []
      else (case cell rnn category (one_hot n_letters k) hidden of
              (output', hidden') \<Rightarrow> k # greedy_decode rnn category n output' hidden'))"

text \<open>
  Teacher forcing: the cell run over the given input vectors, one step each, recording
  for every step its input, the hidden state it started from and its output.
\<close>

primrec teacher_forced ::
  "'a::{zero,plus,times} RNN \<Rightarrow> 'a list \<Rightarrow> 'a list list \<Rightarrow> 'a list \<Rightarrow>
   ('a list \<times> 'a list \<times> 'a list) list" where
  "teacher_forced rnn category [] hidden = []"
| "teacher_forced rnn category (x # xs) hidden =
     (case cell rnn category x hidden of
        (output, hidden') \<Rightarrow> (x, hidden, output) # teacher_forced rnn category xs hidden')"


section \<open>Example instances\<close>

text \<open>
  Cells of the shapes the notebooks construct (57 symbols, hidden width 128), with all
  weights zero, over the reals; the generation example has the bias of its last layer
  set to the one-hot vector of a chosen symbol, so that this symbol always scores
  highest.
\<close>

definition zero_Linear :: "nat \<Rightarrow> nat \<Rightarrow> 'a::zero Linear" where
  "zero_Linear n_in n_out =
     \<lparr>in_features = n_in, out_features = n_out,
      weight = replicate n_out (replicate n_in 0), bias = replicate n_out 0\<rparr>"

definition example_categories :: "string list" where
  "example_categories = [''English'', ''German'', ''Korean'']"

definition example_rnn_cls :: "real RNN_cls" where
  "example_rnn_cls =
     \<lparr>hidden_size_cls = 128,
      i2h_cls = zero_Linear (57 + 128) 128,
      i2o_cls = zero_Linear (57 + 128) 3\<rparr>"

definition example_rnn :: "nat \<Rightarrow> real RNN" where
  "example_rnn k =
     \<lparr>hidden_size = 128,
      i2h = zero_Linear (3 + 57 + 128) 128,
      i2o = zero_Linear (3 + 57 + 128) 57,
      o2o = (zero_Linear (128 + 57) 57)\<lparr>bias := one_hot 57 k\<rparr>\<rparr>"

definition example_crit :: "real list \<Rightarrow> int \<Rightarrow> real" where
  "example_crit output target = 1"

definition example_autograd :: "real RNN \<Rightarrow> real tape \<Rightarrow> real RNN" where
  "example_autograd p tape = p"

definition example_trainer :: "real trainer" where
  "example_trainer =
     \<lparr>cell_params = example_rnn 0, cell_grads = None, momentum_buffer = None,
      n_updates = 0, call_log = []\<rparr>"


section \<open>The vocabulary, the encoders and argmax\<close>

text \<open>
  The vocabulary has 57 distinct characters, so \<open>find\<close> is the inverse of indexing, and
  every encoder writes the row \<open>one_hot n_letters (letter_pos c)\<close> for a character \<open>c\<close>,
  without ever raising.
\<close>

lemma all_letters_unfold:
  "all_letters = ''abcdefghijklmnopqrstuvwxyzABCDEFGHIJKLMNOPQRSTUVWXYZ .,;'' @ [CHR 0x27]"
  by (simp add: all_letters_def ascii_letters_def ascii_lowercase_def ascii_uppercase_def
      apostrophe_def)

lemma n_letters_57: "n_letters = 57"
  by (simp add: n_letters_def all_letters_unfold)

lemma length_all_letters: "length all_letters = 57"
  using n_letters_57 by (simp add: n_letters_def)

lemma distinct_all_letters: "distinct all_letters"
  by (simp add: all_letters_unfold)

lemma find_from_takeWhile:
  "find_from i s c =
     (if c \<in> set s then int (i + length (takeWhile (\<lambda>x. x \<noteq> c) s)) else - 1)"
  by (induction s arbitrary: i) auto

lemma str_find_in:
  "c \<in> set s \<Longrightarrow> str_find s c = int (length (takeWhile (\<lambda>x. x \<noteq> c) s))"
  by (simp add: str_find_def find_from_takeWhile)

lemma str_find_notin: "c \<notin> set s \<Longrightarrow> str_find s c = - 1"
  by (simp add: str_find_def find_from_takeWhile)

lemma takeWhile_neq_less: "c \<in> set s \<Longrightarrow> length (takeWhile (\<lambda>x. x \<noteq> c) s) < length s"
  by (induction s) auto

lemma takeWhile_neq_nth: "c \<in> set s \<Longrightarrow> s ! length (takeWhile (\<lambda>x. x \<noteq> c) s) = c"
  by (induction s) auto

lemma takeWhile_distinct_nth:
  "distinct s \<Longrightarrow> k < length s \<Longrightarrow> length (takeWhile (\<lambda>x. x \<noteq> s ! k) s) = k"
proof (induction s arbitrary: k)
  case Nil
  then show ?case by simp
next
  case (Cons a s)
  show ?case
  proof (cases k)
    case 0
    then show ?thesis by simp
  next
    case (Suc j)
    with Cons.prems have "j < length s" and "s ! j \<in> set s" and "a \<notin> set s" and "distinct s"
      by auto
    then have "a \<noteq> s ! j" by auto
    with Cons.IH [OF \<open>distinct s\<close> \<open>j < length s\<close>] Suc show ?thesis by simp
  qed
qed

lemma letter_pos_less: "letter_pos c < n_letters"
  using takeWhile_neq_less [of c all_letters]
  by (simp add: letter_pos_def n_letters_def length_all_letters)

lemma letter_pos_nth: "k < n_letters \<Longrightarrow> letter_pos (all_letters ! k) = k"
  using takeWhile_distinct_nth [OF distinct_all_letters, of k]
  by (simp add: letter_pos_def n_letters_def)

lemma nth_letter_pos: "c \<in> set all_letters \<Longrightarrow> all_letters ! letter_pos c = c"
  by (simp add: letter_pos_def takeWhile_neq_nth)

lemma norm_index_str_find:
  "norm_index n_letters (str_find all_letters c) = Inr (letter_pos c)"
proof (cases "c \<in> set all_letters")
  case True
  then show ?thesis
    using takeWhile_neq_less [OF True]
    by (simp add: str_find_in norm_index_def letter_pos_def n_letters_def)
next
  case False
  then show ?thesis
    by (simp add: str_find_notin norm_index_def letter_pos_def n_letters_57)
qed

lemma setitem_str_find:
  "length row = n_letters \<Longrightarrow>
   setitem row (str_find all_letters c) v = Inr (row[letter_pos c := v])"
  by (simp add: setitem_def norm_index_str_find)

lemma letterToTensor_eq: "letterToTensor c = Inr (one_hot n_letters (letter_pos c))"
  by (simp add: letterToTensor_def zeros_def one_hot_def setitem_str_find)

lemma length_one_hot [simp]: "length (one_hot n k) = n"
  by (simp add: one_hot_def)

lemma getitem_nat: "i < length xs \<Longrightarrow> getitem xs (int i) = Inr (xs ! i)"
  by (simp add: getitem_def norm_index_def)

lemma lineToTensor_loop_eq:
  "lineToTensor_loop (length pre) rest (pre @ replicate (length rest) (zeros n_letters)) =
     Inr (pre @ map (\<lambda>c. one_hot n_letters (letter_pos c)) rest)"
proof (induction rest arbitrary: pre)
  case Nil
  then show ?case by simp
next
  case (Cons c rest)
  have g: "getitem (pre @ replicate (length (c # rest)) (zeros n_letters)) (int (length pre)) =
        Inr (zeros n_letters)"
    by (simp add: getitem_nat nth_append)
  have s: "setitem (zeros n_letters :: 'a list) (str_find all_letters c) 1 =
        Inr (one_hot n_letters (letter_pos c))"
    by (simp add: setitem_str_find zeros_def one_hot_def)
  have u: "(pre @ replicate (length (c # rest)) (zeros n_letters))
             [length pre := one_hot n_letters (letter_pos c)] =
           (pre @ [one_hot n_letters (letter_pos c)]) @ replicate (length rest) (zeros n_letters)"
    by (simp add: list_update_append)
  show ?case
    using Cons.IH [of "pre @ [one_hot n_letters (letter_pos c)]"]
    by (simp only: lineToTensor_loop.simps Let_def g s u sum.case) simp
qed

lemma lineToTensor_eq:
  "lineToTensor line = Inr (map (\<lambda>c. one_hot n_letters (letter_pos c)) line)"
  using lineToTensor_loop_eq [of "[]" line] by (simp add: lineToTensor_def)

lemma inputTensor_loop_eq:
  "length lpre = length pre \<Longrightarrow>
   inputTensor_loop (lpre @ post) (pre @ replicate (length post) (zeros n_letters))
       [length pre ..< length (lpre @ post)] =
     Inr (pre @ map (\<lambda>c. one_hot n_letters (letter_pos c)) post)"
proof (induction post arbitrary: pre lpre)
  case Nil
  then show ?case by simp
next
  case (Cons c post)
  have r: "[length pre ..< length (lpre @ c # post)] =
           length pre # [length (pre @ [one_hot n_letters (letter_pos c)]) ..< length ((lpre @ [c]) @ post)]"
  proof -
    have "length pre < length (lpre @ c # post)" using Cons.prems by simp
    from upt_conv_Cons [OF this] show ?thesis by simp
  qed
  have l: "getitem (lpre @ c # post) (int (length pre)) = Inr c"
    using Cons.prems by (simp add: getitem_nat nth_append)
  have g: "getitem (pre @ replicate (length (c # post)) (zeros n_letters)) (int (length pre)) =
        Inr (zeros n_letters)"
    by (simp add: getitem_nat nth_append)
  have s: "setitem (zeros n_letters :: 'a list) (str_find all_letters c) 1 =
        Inr (one_hot n_letters (letter_pos c))"
    by (simp add: setitem_str_find zeros_def one_hot_def)
  have u: "(pre @ replicate (length (c # post)) (zeros n_letters))
             [length pre := one_hot n_letters (letter_pos c)] =
           (pre @ [one_hot n_letters (letter_pos c)]) @ replicate (length post) (zeros n_letters)"
    by (simp add: list_update_append)
  have e: "lpre @ c # post = (lpre @ [c]) @ post" by simp
  have "length (lpre @ [c]) = length (pre @ [one_hot n_letters (letter_pos c)])"
    using Cons.prems by simp
  from Cons.IH [OF this] show ?case
    by (simp only: r inputTensor_loop.simps l g s u sum.case) simp
qed

lemma inputTensor_eq:
  "inputTensor line = Inr (map (\<lambda>c. one_hot n_letters (letter_pos c)) line)"
  using inputTensor_loop_eq [of "[]" "[]" line] by (simp add: inputTensor_def)

lemma targetTensor_eq:
  "targetTensor line = map (str_find all_letters) (tl line) @ [int n_letters - 1]"
proof (cases line)
  case Nil
  then show ?thesis by (simp add: targetTensor_def)
next
  case (Cons x xs)
  have "map (\<lambda>li. str_find all_letters ((x # xs) ! li)) [1 ..< length (x # xs)] =
        map (str_find all_letters) xs"
  proof -
    have "[1 ..< length (x # xs)] = map Suc [0 ..< length xs]"
      by (simp only: map_Suc_upt length_Cons One_nat_def)
    then have "map (\<lambda>li. str_find all_letters ((x # xs) ! li)) [1 ..< length (x # xs)] =
        map (str_find all_letters) (map ((!) xs) [0 ..< length xs])"
      by (simp only: map_map o_def nth_Cons_Suc)
    then show ?thesis by (simp only: map_nth)
  qed
  then show ?thesis using Cons by (simp add: targetTensor_def)
qed

lemma argmax_loop_zeros:
  "\<not> bv < (0::'a::zero_less_one) \<Longrightarrow>
   argmax_loop (replicate m 0 @ xs) i best bv = argmax_loop xs (i + m) best bv"
  by (induction m arbitrary: i) auto

lemma one_hot_split:
  "k < n \<Longrightarrow> one_hot n k = replicate k 0 @ 1 # replicate (n - Suc k) 0"
  by (simp add: one_hot_def list_eq_iff_nth_eq nth_append nth_list_update nth_Cons')

lemma not_one_less_zero: "\<not> (1::'a::zero_less_one) < 0"
  using zero_less_one [where 'a='a] by (simp add: less_le_not_le del: zero_less_one)

lemma argmax_one_hot:
  "k < n \<Longrightarrow> argmax (one_hot n k :: 'a::zero_less_one list) = Inr k"
proof (cases k)
  case 0
  assume "k < n"
  with 0 have "one_hot n k = (1::'a) # (replicate (n - 1) 0 @ [])"
    by (simp add: one_hot_split)
  then show ?thesis
    using 0 argmax_loop_zeros [of "1::'a" "n - 1" "[]" 1 0]
    by (simp add: argmax_def not_one_less_zero)
next
  case (Suc j)
  assume "k < n"
  with Suc have "one_hot n k = (0::'a) # (replicate j 0 @ 1 # (replicate (n - Suc k) 0 @ []))"
    by (simp add: one_hot_split)
  then show ?thesis
    using Suc argmax_loop_zeros [of "0::'a" j "1 # (replicate (n - Suc k) 0 @ [])" 1 0]
      argmax_loop_zeros [of "1::'a" "n - Suc k" "[]" "Suc (Suc j)" k]
    by (simp add: argmax_def not_one_less_zero)
qed


text \<open>
  \<open>argmax\<close> is an argmax: on a linear order, the index it returns holds a greatest
  entry, and every earlier entry is strictly smaller.
\<close>

lemma argmax_loop_greatest:
  fixes bv :: "'a::linorder"
  shows "(argmax_loop xs i best bv = best \<and> (\<forall>x \<in> set xs. x \<le> bv)) \<or>
     (\<exists>k < length xs. argmax_loop xs i best bv = i + k \<and> bv < xs ! k \<and>
        (\<forall>x \<in> set xs. x \<le> xs ! k) \<and> (\<forall>j < k. xs ! j < xs ! k))"
proof (induction xs arbitrary: i best bv)
  case Nil
  then show ?case by simp
next
  case (Cons x xs)
  show ?case
  proof (cases "bv < x")
    case True
    from Cons.IH [of "Suc i" i x] show ?thesis
    proof
      assume a: "argmax_loop xs (Suc i) i x = i \<and> (\<forall>y \<in> set xs. y \<le> x)"
      have "0 < length (x # xs) \<and> argmax_loop (x # xs) i best bv = i + 0 \<and>
          bv < (x # xs) ! 0 \<and> (\<forall>y \<in> set (x # xs). y \<le> (x # xs) ! 0) \<and>
          (\<forall>j < 0. (x # xs) ! j < (x # xs) ! 0)"
        using True a by simp
      then show ?thesis by blast
    next
      assume "\<exists>k < length xs. argmax_loop xs (Suc i) i x = Suc i + k \<and> x < xs ! k \<and>
          (\<forall>y \<in> set xs. y \<le> xs ! k) \<and> (\<forall>j < k. xs ! j < xs ! k)"
      then obtain k where k: "k < length xs" "argmax_loop xs (Suc i) i x = Suc i + k"
        "x < xs ! k" "\<forall>y \<in> set xs. y \<le> xs ! k" "\<forall>j < k. xs ! j < xs ! k"
        by blast
      have "Suc k < length (x # xs) \<and> argmax_loop (x # xs) i best bv = i + Suc k \<and>
          bv < (x # xs) ! Suc k \<and> (\<forall>y \<in> set (x # xs). y \<le> (x # xs) ! Suc k) \<and>
          (\<forall>j < Suc k. (x # xs) ! j < (x # xs) ! Suc k)"
        using True k by (auto simp: less_Suc_eq_0_disj)
      then show ?thesis by blast
    qed
  next
    case False
    from Cons.IH [of "Suc i" best bv] show ?thesis
    proof
      assume "argmax_loop xs (Suc i) best bv = best \<and> (\<forall>y \<in> set xs. y \<le> bv)"
      with False show ?thesis by auto
    next
      assume "\<exists>k < length xs. argmax_loop xs (Suc i) best bv = Suc i + k \<and> bv < xs ! k \<and>
          (\<forall>y \<in> set xs. y \<le> xs ! k) \<and> (\<forall>j < k. xs ! j < xs ! k)"
      then obtain k where k: "k < length xs" "argmax_loop xs (Suc i) best bv = Suc i + k"
        "bv < xs ! k" "\<forall>y \<in> set xs. y \<le> xs ! k" "\<forall>j < k. xs ! j < xs ! k"
        by blast
      have "Suc k < length (x # xs) \<and> argmax_loop (x # xs) i best bv = i + Suc k \<and>
          bv < (x # xs) ! Suc k \<and> (\<forall>y \<in> set (x # xs). y \<le> (x # xs) ! Suc k) \<and>
          (\<forall>j < Suc k. (x # xs) ! j < (x # xs) ! Suc k)"
        using False k by (auto simp: less_Suc_eq_0_disj)
      then show ?thesis by blast
    qed
  qed
qed

lemma argmax_index_greatest:
  fixes xs :: "'a::linorder list"
  assumes "xs \<noteq> []"
  shows "argmax_index xs < length xs"
    and "\<forall>x \<in> set xs. x \<le> xs ! argmax_index xs"
    and "\<forall>j < argmax_index xs. xs ! j < xs ! argmax_index xs"
proof -
  from assms obtain y ys where xs: "xs = y # ys" by (cases xs) auto
  from argmax_loop_greatest [of ys 1 0 y]
  have "argmax_index xs < length xs \<and> (\<forall>x \<in> set xs. x \<le> xs ! argmax_index xs) \<and>
      (\<forall>j < argmax_index xs. xs ! j < xs ! argmax_index xs)"
  proof
    assume "argmax_loop ys 1 0 y = 0 \<and> (\<forall>x \<in> set ys. x \<le> y)"
    then show ?thesis by (simp add: xs argmax_index_def)
  next
    assume "\<exists>k < length ys. argmax_loop ys 1 0 y = 1 + k \<and> y < ys ! k \<and>
        (\<forall>x \<in> set ys. x \<le> ys ! k) \<and> (\<forall>j < k. ys ! j < ys ! k)"
    then obtain k where k: "k < length ys" "argmax_loop ys 1 0 y = 1 + k" "y < ys ! k"
      "\<forall>x \<in> set ys. x \<le> ys ! k" "\<forall>j < k. ys ! j < ys ! k"
      by blast
    then show ?thesis by (auto simp: xs argmax_index_def less_Suc_eq_0_disj)
  qed
  then show "argmax_index xs < length xs"
    and "\<forall>x \<in> set xs. x \<le> xs ! argmax_index xs"
    and "\<forall>j < argmax_index xs. xs ! j < xs ! argmax_index xs"
    by simp_all
qed

section \<open>Encoding known and unknown characters\<close>

lemma letter_pos_unknown: "c \<notin> set all_letters \<Longrightarrow> letter_pos c = 56"
  by (simp add: letter_pos_def n_letters_57)

lemma letter_pos_apostrophe: "letter_pos apostrophe = 56"
  using letter_pos_nth [of 56] by (simp add: n_letters_57 all_letters_unfold apostrophe_def)

lemma one_hot_57_56: "one_hot 57 56 = replicate 56 0 @ [1]"
  by (simp add: one_hot_split)

lemma map_one_hot_unknown:
  "c \<notin> set all_letters \<Longrightarrow>
   map (\<lambda>c. one_hot n_letters (letter_pos c)) (pre @ c # post) =
   map (\<lambda>c. one_hot n_letters (letter_pos c)) (pre @ apostrophe # post)"
  by (simp add: letter_pos_unknown letter_pos_apostrophe)

text \<open>
  Claim C1, as amended. The claim says that encoding a character outside the vocabulary
  fails with an \<open>UnknownSymbolError\<close>. The code has no such check: for a character
  \<open>c\<close> outside the vocabulary \<open>letterToTensor c\<close> returns a vector of length 57, and
  \<open>inputTensor\<close> on any line that contains \<open>c\<close> returns one row of length 57 for each
  character of the line. No error is raised.
\<close>

theorem unknown_letter_not_rejected:
  "c \<notin> set all_letters \<Longrightarrow>
   (\<exists>v. letterToTensor c = Inr (v :: 'a::{zero,one} list) \<and> length v = 57) \<and>
   (\<exists>t. inputTensor (pre @ c # post) = Inr (t :: 'a list list) \<and>
        length t = length (pre @ c # post) \<and> (\<forall>row \<in> set t. length row = 57))"
  by (auto simp: letterToTensor_eq inputTensor_eq n_letters_57)

text \<open>The amended claim C1 at the character \<open>!\<close> and the line \<open>a!b\<close>.\<close>

theorem unknown_letter_not_rejected_witness:
  "CHR ''!'' \<notin> set all_letters \<and>
   (\<exists>v. letterToTensor (CHR ''!'') = Inr (v :: real list) \<and> length v = 57) \<and>
   (\<exists>t. inputTensor (''a'' @ CHR ''!'' # ''b'') = Inr (t :: real list list) \<and>
        length t = length (''a'' @ CHR ''!'' # ''b'') \<and> (\<forall>row \<in> set t. length row = 57))"
proof -
  have h: "CHR ''!'' \<notin> set all_letters" by (simp add: all_letters_unfold)
  from h unknown_letter_not_rejected [OF h, of "''a''" "''b''", where 'a = real]
  show ?thesis by (rule conjI)
qed

text \<open>
  Claim C1 as stated fails: \<open>!\<close> is not in the vocabulary, and both encoders return a
  vector for it instead of raising.
\<close>

theorem unknown_letter_counterexample:
  "CHR ''!'' \<notin> set all_letters \<and>
   letterToTensor (CHR ''!'') = Inr (replicate 56 0 @ [1 :: real]) \<and>
   inputTensor ''!'' = Inr [replicate 56 0 @ [1 :: real]]"
  by (simp add: letterToTensor_eq inputTensor_eq letter_pos_def n_letters_57 one_hot_57_56
      all_letters_unfold)

text \<open>
  Claim C10. For a character \<open>c\<close> that is not in \<open>all_letters\<close>, \<open>find\<close> yields \<open>-1\<close>,
  so \<open>letterToTensor c\<close> returns normally with its \<open>1\<close> at the last index 56: the
  vector is the encoding of the apostrophe, which is also the end-of-sequence index.
  \<open>inputTensor\<close> and \<open>lineToTensor\<close> on a line that contains \<open>c\<close> return normally too,
  with that same row at the position of \<open>c\<close>, and cannot be told from the encoding of
  the line with an apostrophe in place of \<open>c\<close>.
\<close>

theorem unknown_letter_encoded_as_apostrophe:
  "c \<notin> set all_letters \<Longrightarrow>
   str_find all_letters c = - 1 \<and>
   letterToTensor c = Inr (replicate 56 0 @ [1 :: 'a::{zero,one}]) \<and>
   (letterToTensor c :: py_error + 'a list) = letterToTensor apostrophe \<and>
   (\<exists>t. inputTensor (pre @ c # post) = Inr t \<and> length t = length (pre @ c # post) \<and>
        t ! length pre = replicate 56 0 @ [1 :: 'a]) \<and>
   (inputTensor (pre @ c # post) :: py_error + 'a list list) =
      inputTensor (pre @ apostrophe # post) \<and>
   (lineToTensor (pre @ c # post) :: py_error + 'a list list) =
      lineToTensor (pre @ apostrophe # post)"
  by (simp add: str_find_notin letterToTensor_eq inputTensor_eq lineToTensor_eq
      letter_pos_unknown letter_pos_apostrophe n_letters_57 one_hot_57_56 nth_append)

text \<open>Claim C10 at the character \<open>!\<close> inside the line \<open>Jo!nes\<close>.\<close>

theorem unknown_letter_encoded_as_apostrophe_witness:
  "CHR ''!'' \<notin> set all_letters \<and>
   str_find all_letters (CHR ''!'') = - 1 \<and>
   letterToTensor (CHR ''!'') = Inr (replicate 56 0 @ [1 :: real]) \<and>
   (letterToTensor (CHR ''!'') :: py_error + real list) = letterToTensor apostrophe \<and>
   (\<exists>t. inputTensor (''Jo'' @ CHR ''!'' # ''nes'') = Inr t \<and>
        length t = length (''Jo'' @ CHR ''!'' # ''nes'') \<and>
        t ! length ''Jo'' = replicate 56 0 @ [1 :: real]) \<and>
   (inputTensor (''Jo'' @ CHR ''!'' # ''nes'') :: py_error + real list list) =
      inputTensor (''Jo'' @ apostrophe # ''nes'') \<and>
   (lineToTensor (''Jo'' @ CHR ''!'' # ''nes'') :: py_error + real list list) =
      lineToTensor (''Jo'' @ apostrophe # ''nes'')"
proof -
  have h: "CHR ''!'' \<notin> set all_letters" by (simp add: all_letters_unfold)
  from h unknown_letter_encoded_as_apostrophe [OF h, of "''Jo''" "''nes''", where 'a = real]
  show ?thesis by (rule conjI)
qed

text \<open>
  Claim C9. For every symbol \<open>s\<close> of the vocabulary, the argmax index of
  \<open>letterToTensor s\<close>, used as an index into \<open>all_letters\<close>, gives \<open>s\<close> back. The scalar
  type only needs \<open>0 < 1\<close>.
\<close>

theorem encode_decode_round_trip:
  "s \<in> set all_letters \<Longrightarrow>
   \<exists>v top_i. letterToTensor s = Inr (v :: 'a::zero_less_one list) \<and>
     argmax v = Inr top_i \<and> getitem all_letters (int top_i) = Inr s"
  using letter_pos_less [of s]
  by (simp add: letterToTensor_eq argmax_one_hot getitem_nat nth_letter_pos n_letters_def)

text \<open>Claim C9 at the letter \<open>J\<close>.\<close>

theorem encode_decode_round_trip_witness:
  "CHR ''J'' \<in> set all_letters \<and>
   (\<exists>v top_i. letterToTensor (CHR ''J'') = Inr (v :: real list) \<and>
     argmax v = Inr top_i \<and> getitem all_letters (int top_i) = Inr (CHR ''J''))"
proof -
  have h: "CHR ''J'' \<in> set all_letters" by (simp add: all_letters_unfold)
  from h encode_decode_round_trip [OF h, where 'a = real]
  show ?thesis by (rule conjI)
qed


section \<open>The cells and the classification runner\<close>

text \<open>
  On inputs of the widths its layers were built for, a cell step raises nothing and is
  the pure function \<open>cell\<close> (\<open>cell_cls\<close>).
\<close>

lemma length_affine: "Linear_shape n_in n_out l \<Longrightarrow> length (affine l x) = n_out"
  by (simp add: Linear_shape_def affine_def)

lemma linear_eq:
  "Linear_shape n_in n_out l \<Longrightarrow> length x = n_in \<Longrightarrow> linear l x = Inr (affine l x)"
  by (simp add: Linear_shape_def linear_def)

lemma linear_wrong_width:
  "Linear_shape n_in n_out l \<Longrightarrow> length x \<noteq> n_in \<Longrightarrow> linear l x = Inl RuntimeError"
  by (simp add: Linear_shape_def linear_def)

lemma forward_cls_eq:
  assumes "RNN_cls_shape V H C rnn" and "length x = V" and "length hidden = H"
  shows "forward_cls rnn x hidden = Inr (cell_cls rnn x hidden)"
proof -
  from assms(1) have h: "Linear_shape (V + H) H (i2h_cls rnn)"
    and o: "Linear_shape (V + H) C (i2o_cls rnn)"
    by (simp_all add: RNN_cls_shape_def)
  have w: "length (x @ hidden) = V + H" using assms by simp
  show ?thesis
    by (simp add: forward_cls_def cell_cls_def Let_def linear_eq [OF h w] linear_eq [OF o w])
qed

lemma length_cell_cls:
  assumes "RNN_cls_shape V H C rnn"
  shows "length (fst (cell_cls rnn x hidden)) = C" and "length (snd (cell_cls rnn x hidden)) = H"
  using assms by (simp_all add: RNN_cls_shape_def cell_cls_def length_affine [of "V + H"])

lemma forward_eq:
  assumes "RNN_shape C V H W rnn" and "length category = C" and "length x = V"
    and "length hidden = H"
  shows "forward rnn category x hidden = Inr (cell rnn category x hidden)"
proof -
  from assms(1) have h: "Linear_shape (C + V + H) H (i2h rnn)"
    and o: "Linear_shape (C + V + H) W (i2o rnn)"
    and oo: "Linear_shape (H + W) W (o2o rnn)"
    by (simp_all add: RNN_shape_def)
  have w: "length (category @ x @ hidden) = C + V + H" using assms by simp
  have w2: "length (affine (i2h rnn) (category @ x @ hidden) @
                    affine (i2o rnn) (category @ x @ hidden)) = H + W"
    by (simp add: length_affine [OF h] length_affine [OF o])
  show ?thesis
    by (simp add: forward_def cell_def Let_def linear_eq [OF h w] linear_eq [OF o w]
        linear_eq [OF oo w2])
qed

lemma length_cell:
  assumes "RNN_shape C V H W rnn"
  shows "length (fst (cell rnn category x hidden)) = W"
    and "length (snd (cell rnn category x hidden)) = H"
  using assms
  by (simp_all add: RNN_shape_def cell_def Let_def length_affine [of "C + V + H"]
      length_affine [of "H + W"])

text \<open>
  Claim C6. On a category vector of length \<open>C\<close>, an input vector of length \<open>V\<close> and a
  hidden vector of length \<open>H\<close>, one step of the generation cell joins the three into a
  vector of length \<open>C + V + H\<close> and applies two affine projections to it: \<open>i2h\<close> gives
  the new hidden state of length \<open>H\<close>, \<open>i2o\<close> an intermediate output of length \<open>V\<close>.
  It then joins the two (the code puts the new hidden state first, the intermediate
  output second) and applies the third affine projection \<open>o2o\<close>, which gives the
  returned score vector of length \<open>V\<close>; the step raises no error.
\<close>

theorem generation_cell_step:
  assumes "RNN_shape C V H V rnn"
    and "length category = C" and "length x = V" and "length hidden = H"
  shows "length (category @ x @ hidden) = C + V + H \<and>
     length (affine (i2h rnn) (category @ x @ hidden)) = H \<and>
     length (affine (i2o rnn) (category @ x @ hidden)) = V \<and>
     forward rnn category x hidden =
       Inr (affine (o2o rnn)
              (affine (i2h rnn) (category @ x @ hidden) @
               affine (i2o rnn) (category @ x @ hidden)),
            affine (i2h rnn) (category @ x @ hidden)) \<and>
     length (affine (o2o rnn)
              (affine (i2h rnn) (category @ x @ hidden) @
               affine (i2o rnn) (category @ x @ hidden))) = V"
proof -
  from assms(1) have h: "Linear_shape (C + V + H) H (i2h rnn)"
    and o: "Linear_shape (C + V + H) V (i2o rnn)"
    and oo: "Linear_shape (H + V) V (o2o rnn)"
    by (simp_all add: RNN_shape_def)
  have "forward rnn category x hidden = Inr (cell rnn category x hidden)"
    using assms by (rule forward_eq)
  then show ?thesis
    using assms(2-4)
    by (simp add: cell_def Let_def length_affine [OF h] length_affine [OF o]
        length_affine [OF oo])
qed

lemma Linear_shape_zero: "Linear_shape n_in n_out (zero_Linear n_in n_out)"
  by (simp add: Linear_shape_def zero_Linear_def)

lemma example_rnn_shape: "k < 57 \<Longrightarrow> RNN_shape 3 57 128 57 (example_rnn k)"
  using Linear_shape_zero [of "3 + 57 + 128" 128, where 'a = real]
    Linear_shape_zero [of "3 + 57 + 128" 57, where 'a = real]
    Linear_shape_zero [of "128 + 57" 57, where 'a = real]
  by (simp add: RNN_shape_def example_rnn_def Linear_shape_def)

lemma example_rnn_cls_shape: "RNN_cls_shape 57 128 3 example_rnn_cls"
  using Linear_shape_zero [of "57 + 128" 128, where 'a = real]
    Linear_shape_zero [of "57 + 128" 3, where 'a = real]
  by (simp add: RNN_cls_shape_def example_rnn_cls_def)

text \<open>Claim C6 on the example cell, category 1 of 3, the letter \<open>B\<close> and a zero hidden state.\<close>

theorem generation_cell_step_witness:
  "RNN_shape 3 57 128 57 (example_rnn 0) \<and>
   length (one_hot 3 1 :: real list) = 3 \<and> length (encode (CHR ''B'') :: real list) = 57 \<and>
   length (zeros 128 :: real list) = 128 \<and>
   length (one_hot 3 1 @ encode (CHR ''B'') @ zeros 128 :: real list) = 3 + 57 + 128 \<and>
   length (affine (i2h (example_rnn 0)) (one_hot 3 1 @ encode (CHR ''B'') @ zeros 128)) = 128 \<and>
   length (affine (i2o (example_rnn 0)) (one_hot 3 1 @ encode (CHR ''B'') @ zeros 128)) = 57 \<and>
   forward (example_rnn 0) (one_hot 3 1) (encode (CHR ''B'')) (zeros 128) =
     Inr (affine (o2o (example_rnn 0))
            (affine (i2h (example_rnn 0)) (one_hot 3 1 @ encode (CHR ''B'') @ zeros 128) @
             affine (i2o (example_rnn 0)) (one_hot 3 1 @ encode (CHR ''B'') @ zeros 128)),
          affine (i2h (example_rnn 0)) (one_hot 3 1 @ encode (CHR ''B'') @ zeros 128)) \<and>
   length (affine (o2o (example_rnn 0))
            (affine (i2h (example_rnn 0)) (one_hot 3 1 @ encode (CHR ''B'') @ zeros 128) @
             affine (i2o (example_rnn 0)) (one_hot 3 1 @ encode (CHR ''B'') @ zeros 128))) = 57"
proof -
  have s: "RNN_shape 3 57 128 57 (example_rnn 0)" by (simp add: example_rnn_shape)
  have c: "length (one_hot 3 1 :: real list) = 3" by simp
  have x: "length (encode (CHR ''B'') :: real list) = 57" by (simp add: encode_def n_letters_57)
  have h: "length (zeros 128 :: real list) = 128" by (simp add: zeros_def)
  from s c x h generation_cell_step [OF s c x h] show ?thesis by blast
qed


lemma lineToTensor_encode: "lineToTensor line = Inr (map encode line)"
  using lineToTensor_eq [of line] by (simp add: encode_def [abs_def])

lemma inputTensor_encode: "inputTensor line = Inr (map encode line)"
  using inputTensor_eq [of line] by (simp add: encode_def [abs_def])

lemma length_encode [simp]: "length (encode c) = n_letters"
  by (simp add: encode_def)

lemma upt_append_Cons:
  "[length pre ..< length (pre @ x # rest)] =
     length pre # [length (pre @ [x]) ..< length ((pre @ [x]) @ rest)]"
proof -
  have "length pre < length (pre @ x # rest)" by simp
  from upt_conv_Cons [OF this] show ?thesis by simp
qed

lemma predict_loop_eq:
  assumes shape: "RNN_cls_shape V H C rnn"
  shows "\<forall>x \<in> set rest. length x = V \<Longrightarrow> length hidden = H \<Longrightarrow>
     predict_loop rnn (pre @ rest) [length pre ..< length (pre @ rest)] out hidden =
       Inr (if rest = [] then out
            else Some (fst (cell_cls rnn (last rest)
                   (foldl (\<lambda>hidden x. snd (cell_cls rnn x hidden)) hidden (butlast rest)))),
            foldl (\<lambda>hidden x. snd (cell_cls rnn x hidden)) hidden rest)"
proof (induction rest arbitrary: pre out hidden)
  case Nil
  then show ?case by simp
next
  case (Cons x rest)
  have r: "[length pre ..< length (pre @ x # rest)] =
           length pre # [length (pre @ [x]) ..< length ((pre @ [x]) @ rest)]"
    by (rule upt_append_Cons)
  have g: "getitem (pre @ x # rest) (int (length pre)) = Inr x"
    by (simp add: getitem_nat)
  have f: "forward_cls rnn x hidden =
        Inr (fst (cell_cls rnn x hidden), snd (cell_cls rnn x hidden))"
    using shape Cons.prems by (simp add: forward_cls_eq [of V H C])
  have l: "length (snd (cell_cls rnn x hidden)) = H"
    using shape by (rule length_cell_cls)
  have v: "\<forall>x \<in> set rest. length x = V" using Cons.prems by simp
  have e: "pre @ x # rest = (pre @ [x]) @ rest" by simp
  have "predict_loop rnn (pre @ x # rest) [length pre ..< length (pre @ x # rest)] out hidden =
        predict_loop rnn ((pre @ [x]) @ rest) [length (pre @ [x]) ..< length ((pre @ [x]) @ rest)]
          (Some (fst (cell_cls rnn x hidden))) (snd (cell_cls rnn x hidden))"
    by (simp only: r predict_loop.simps g f sum.case prod.case) (simp only: e)
  also note Cons.IH [OF v l, of "pre @ [x]" "Some (fst (cell_cls rnn x hidden))"]
  finally show ?case by (cases rest) simp_all
qed

lemma predict_output_eq:
  assumes "RNN_cls_shape n_letters H C rnn" and "input_line \<noteq> []"
  shows "predict_output rnn input_line = Inr (classify rnn (map encode input_line))"
proof -
  have v: "\<forall>x \<in> set (map encode input_line :: 'a list list). length x = n_letters" by simp
  have h: "length (initHidden_cls rnn) = H"
    using assms(1) by (simp add: initHidden_cls_def zeros_def RNN_cls_shape_def)
  from predict_loop_eq [OF assms(1) v h, of "[]" None] assms(2)
  show ?thesis
    by (simp add: predict_output_def lineToTensor_encode classify_def initHidden_cls_def)
qed

text \<open>
  Claim C7. For every input line of length at least one, \<open>predict\<close> runs the cell over
  the one-hot vectors of the line in input order, from the all-zero hidden state, each
  step's hidden state going to the next step, and the \<open>output\<close> it is left with is the
  output of the final step only, as \<open>classify\<close> says; that vector has length \<open>C\<close>
  whatever the length of the line.
\<close>

theorem predict_final_output:
  assumes "RNN_cls_shape n_letters H C rnn" and "input_line \<noteq> []"
  shows "predict_output rnn input_line = Inr (classify rnn (map encode input_line)) \<and>
     length (classify rnn (map encode input_line)) = C"
  using assms predict_output_eq [OF assms] length_cell_cls(1) [OF assms(1)]
  by (simp add: classify_def)

text \<open>Claim C7 on the example cell and the word \<open>Kim\<close>.\<close>

theorem predict_final_output_witness:
  "RNN_cls_shape n_letters 128 3 example_rnn_cls \<and> ''Kim'' \<noteq> [] \<and>
   predict_output example_rnn_cls ''Kim'' = Inr (classify example_rnn_cls (map encode ''Kim'')) \<and>
   length (classify example_rnn_cls (map encode ''Kim'')) = 3"
proof -
  have s: "RNN_cls_shape n_letters 128 3 example_rnn_cls"
    using example_rnn_cls_shape by (simp add: n_letters_57)
  have n: "''Kim'' \<noteq> []" by simp
  from s n predict_final_output [OF s n] show ?thesis by blast
qed

text \<open>
  Claim C8, as amended. The claim says that classifying a zero-length sequence raises no
  error and returns a projection of the zero hidden state. In the code the loop body
  never runs on the empty line, the local variable \<open>output\<close> is never assigned, and
  \<open>predict\<close> raises \<open>UnboundLocalError\<close> when it reads it: no vector is returned,
  whatever the parameters of the cell.
\<close>

theorem predict_empty_raises: "predict_output rnn [] = Inl UnboundLocalError"
  by (simp add: predict_output_def lineToTensor_encode)

text \<open>Claim C8 as stated fails on the example cell: the empty line raises.\<close>

theorem predict_empty_counterexample:
  "predict_output example_rnn_cls '''' = Inl UnboundLocalError"
  by (simp add: predict_output_def lineToTensor_encode)


section \<open>Word generation: what the loops append\<close>

text \<open>
  \<open>categoryTensor\<close> succeeds exactly on the categories of the list.
\<close>

lemma index_from_takeWhile:
  "index_from i xs v =
     (if v \<in> set xs then Inr (i + length (takeWhile (\<lambda>x. x \<noteq> v) xs)) else Inl ValueError)"
  by (induction xs arbitrary: i) auto

lemma categoryTensor_known:
  assumes "category \<in> set all_categories"
  shows "\<exists>li < length all_categories.
     categoryTensor all_categories category = Inr (one_hot (length all_categories) li)"
proof -
  let ?li = "length (takeWhile (\<lambda>x. x \<noteq> category) all_categories)"
  have "?li < length all_categories" using assms by (rule takeWhile_neq_less)
  moreover from this assms
  have "categoryTensor all_categories category = Inr (one_hot (length all_categories) ?li)"
    by (simp add: categoryTensor_def list_index_def index_from_takeWhile setitem_def
        norm_index_def zeros_def one_hot_def)
  ultimately show ?thesis by blast
qed

lemma categoryTensor_unknown:
  "category \<notin> set all_categories \<Longrightarrow>
   categoryTensor all_categories category = Inl ValueError"
  by (simp add: categoryTensor_def list_index_def index_from_takeWhile)

lemma categoryTensor_length:
  "categoryTensor all_categories category = Inr ct \<Longrightarrow> length ct = length all_categories"
  by (auto simp: categoryTensor_def setitem_def zeros_def split: sum.splits)

lemma argmax_loop_less: "best < i \<Longrightarrow> argmax_loop xs i best bv < i + length xs"
proof (induction xs arbitrary: i best bv)
  case Nil
  then show ?case by simp
next
  case (Cons x xs)
  have "argmax_loop xs (Suc i) i x < Suc i + length xs"
    by (rule Cons.IH) simp
  moreover have "argmax_loop xs (Suc i) best bv < Suc i + length xs"
    by (rule Cons.IH) (use Cons.prems in simp)
  ultimately show ?case by simp
qed

lemma argmax_eq: "xs \<noteq> [] \<Longrightarrow> argmax xs = Inr (argmax_index xs)"
  by (cases xs) (simp_all add: argmax_def argmax_index_def)

lemma argmax_index_less: "xs \<noteq> [] \<Longrightarrow> argmax_index xs < length xs"
  using argmax_loop_less [of 0 1 "tl xs" "hd xs"]
  by (cases xs) (simp_all add: argmax_index_def)

lemma argmax_Inr_less: "argmax xs = Inr k \<Longrightarrow> k < length xs"
  using argmax_index_less [of xs] by (cases xs) (auto simp: argmax_def argmax_index_def)











text \<open>
  With a cell of the notebook's shape the loops raise nothing and compute what
  \<open>greedy_decode\<close> and \<open>warm_up\<close> say.
\<close>

lemma inputTensor_single: "inputTensor [c] = Inr [encode c]"
  using inputTensor_eq [of "[c]"] by (simp add: encode_def)

lemma getitem_zero: "getitem (x # xs) 0 = Inr x"
  using getitem_nat [of 0 "x # xs"] by simp

lemma encode_nth: "k < n_letters \<Longrightarrow> encode (all_letters ! k) = one_hot n_letters k"
  by (simp add: encode_def letter_pos_nth)

lemma length_greedy_decode: "length (greedy_decode rnn ct n out hidden) \<le> n"
proof (induction n arbitrary: out hidden)
  case 0
  then show ?case by simp
next
  case (Suc n)
  show ?case
  proof (cases "argmax_index out = eos_index")
    case True
    then show ?thesis by simp
  next
    case False
    obtain out' hidden' where
      c: "cell rnn ct (one_hot n_letters (argmax_index out)) hidden = (out', hidden')"
      by (cases "cell rnn ct (one_hot n_letters (argmax_index out)) hidden")
    from Suc.IH [of out' hidden'] False c show ?thesis by simp
  qed
qed

lemma decode_loop_eq:
  assumes shape: "RNN_shape C n_letters H n_letters rnn" and ct: "length ct = C"
  shows "length out = n_letters \<Longrightarrow> length hidden = H \<Longrightarrow>
     decode_loop rnn ct n (Some out) hidden name =
       Inr (name @ map ((!) all_letters) (greedy_decode rnn ct n out hidden))"
proof (induction n arbitrary: out hidden name)
  case 0
  then show ?case by simp
next
  case (Suc n)
  let ?k = "argmax_index out"
  have ne: "out \<noteq> []" using Suc.prems(1) by (auto simp: n_letters_57)
  have a: "argmax out = Inr ?k" using ne by (rule argmax_eq)
  have k: "?k < n_letters" using argmax_index_less [OF ne] Suc.prems(1) by simp
  show ?case
  proof (cases "?k = eos_index")
    case True
    then show ?thesis by (simp add: a eos_index_def)
  next
    case False
    obtain out' hidden' where
      c: "cell rnn ct (one_hot n_letters ?k) hidden = (out', hidden')"
      by (cases "cell rnn ct (one_hot n_letters ?k) hidden")
    have f: "forward rnn ct (one_hot n_letters ?k) hidden = Inr (out', hidden')"
      using forward_eq [OF shape ct _ Suc.prems(2), of "one_hot n_letters ?k"] c by simp
    have lo: "length out' = n_letters" and lh: "length hidden' = H"
      using length_cell [OF shape, of ct "one_hot n_letters ?k" hidden] c by simp_all
    have g: "getitem all_letters (int ?k) = Inr (all_letters ! ?k)"
      using k by (simp add: getitem_nat n_letters_def)
    have i: "inputTensor [all_letters ! ?k] = Inr [one_hot n_letters ?k]"
      using k by (simp add: inputTensor_single encode_nth)
    have "decode_loop rnn ct (Suc n) (Some out) hidden name =
          decode_loop rnn ct n (Some out') hidden' (name @ [all_letters ! ?k])"
      using False by (simp add: a g i f getitem_zero eos_index_def)
    also have "\<dots> = Inr ((name @ [all_letters ! ?k]) @
                 map ((!) all_letters) (greedy_decode rnn ct n out' hidden'))"
      using lo lh by (rule Suc.IH)
    finally show ?thesis using False c by simp
  qed
qed

lemma sample_loop_eq:
  assumes shape: "RNN_shape C n_letters H n_letters rnn" and ct: "length ct = C"
  shows "length x0 = n_letters \<Longrightarrow> length hidden = H \<Longrightarrow>
     sample_loop rnn ct n (x0 # xs) hidden name =
       Inr (name @ map ((!) all_letters)
              (greedy_decode rnn ct n (fst (cell rnn ct x0 hidden)) (snd (cell rnn ct x0 hidden))))"
proof (induction n arbitrary: x0 xs hidden name)
  case 0
  then show ?case by simp
next
  case (Suc n)
  obtain out hidden' where c0: "cell rnn ct x0 hidden = (out, hidden')"
    by (cases "cell rnn ct x0 hidden")
  have f0: "forward rnn ct x0 hidden = Inr (out, hidden')"
    using forward_eq [OF shape ct Suc.prems] c0 by simp
  have lo: "length out = n_letters" and lh: "length hidden' = H"
    using length_cell [OF shape, of ct x0 hidden] c0 by simp_all
  let ?k = "argmax_index out"
  have ne: "out \<noteq> []" using lo by (auto simp: n_letters_57)
  have a: "argmax out = Inr ?k" using ne by (rule argmax_eq)
  have k: "?k < n_letters" using argmax_index_less [OF ne] lo by simp
  show ?case
  proof (cases "?k = eos_index")
    case True
    then show ?thesis by (simp add: getitem_zero f0 c0 a eos_index_def)
  next
    case False
    have g: "getitem all_letters (int ?k) = Inr (all_letters ! ?k)"
      using k by (simp add: getitem_nat n_letters_def)
    have i: "inputTensor [all_letters ! ?k] = Inr [one_hot n_letters ?k]"
      using k by (simp add: inputTensor_single encode_nth)
    have "sample_loop rnn ct (Suc n) (x0 # xs) hidden name =
          sample_loop rnn ct n [one_hot n_letters ?k] hidden' (name @ [all_letters ! ?k])"
      using False by (simp add: getitem_zero f0 a g i eos_index_def)
    also have "\<dots> = Inr ((name @ [all_letters ! ?k]) @ map ((!) all_letters)
         (greedy_decode rnn ct n (fst (cell rnn ct (one_hot n_letters ?k) hidden'))
            (snd (cell rnn ct (one_hot n_letters ?k) hidden'))))"
      using lh by (intro Suc.IH) simp_all
    also have "\<dots> = Inr (name @ map ((!) all_letters)
         (greedy_decode rnn ct (Suc n) (fst (cell rnn ct x0 hidden))
            (snd (cell rnn ct x0 hidden))))"
      using False c0 by (simp add: case_prod_beta Let_def)
    finally show ?thesis .
  qed
qed

lemma warm_up_step:
  "foldl (\<lambda>(output, hidden) c. cell rnn ct (encode c) hidden) (d, hidden) (c # rest) =
   foldl (\<lambda>(output, hidden) c. cell rnn ct (encode c) hidden)
     (fst (cell rnn ct (encode c) hidden), snd (cell rnn ct (encode c) hidden)) rest"
  by simp

lemma feed_loop_eq:
  assumes shape: "RNN_shape C n_letters H W rnn" and ct: "length ct = C"
  shows "length hidden = H \<Longrightarrow>
     feed_loop rnn ct (pre @ rest) [length pre ..< length (pre @ rest)] out hidden =
       Inr (if rest = [] then out
            else Some (fst (foldl (\<lambda>(output, hidden) c. cell rnn ct (encode c) hidden)
                              (d, hidden) rest)),
            snd (foldl (\<lambda>(output, hidden) c. cell rnn ct (encode c) hidden) (d, hidden) rest))"
proof (induction rest arbitrary: pre out hidden d)
  case Nil
  then show ?case by simp
next
  case (Cons c rest)
  let ?o = "fst (cell rnn ct (encode c) hidden)" and ?h = "snd (cell rnn ct (encode c) hidden)"
  have r: "[length pre ..< length (pre @ c # rest)] =
           length pre # [length (pre @ [c]) ..< length ((pre @ [c]) @ rest)]"
    by (rule upt_append_Cons)
  have g: "getitem (pre @ c # rest) (int (length pre)) = Inr c"
    by (simp add: getitem_nat)
  have f: "forward rnn ct (encode c) hidden = Inr (?o, ?h)"
    using forward_eq [OF shape ct _ Cons.prems, of "encode c"] by simp
  have lh: "length ?h = H" using shape by (rule length_cell)
  have e: "pre @ c # rest = (pre @ [c]) @ rest" by simp
  have "feed_loop rnn ct (pre @ c # rest) [length pre ..< length (pre @ c # rest)] out hidden =
        feed_loop rnn ct ((pre @ [c]) @ rest) [length (pre @ [c]) ..< length ((pre @ [c]) @ rest)]
          (Some ?o) ?h"
    by (simp only: r feed_loop.simps g inputTensor_single getitem_zero f sum.case prod.case)
      (simp only: e)
  also note Cons.IH [OF lh, of "pre @ [c]" "Some ?o" ?o]
  finally show ?case by (cases rest) simp_all
qed


section \<open>Word generation: the whole run, and the example cells\<close>

lemma warm_up_lengths:
  assumes shape: "RNN_shape C V H W rnn" and "seed \<noteq> []"
  shows "length (fst (foldl (\<lambda>(output, hidden) c. cell rnn ct (encode c) hidden) s seed)) = W"
    and "length (snd (foldl (\<lambda>(output, hidden) c. cell rnn ct (encode c) hidden) s seed)) = H"
proof -
  from assms(2) obtain cs c where "seed = cs @ [c]" by (cases seed rule: rev_cases) auto
  then show "length (fst (foldl (\<lambda>(output, hidden) c. cell rnn ct (encode c) hidden) s seed)) = W"
    and "length (snd (foldl (\<lambda>(output, hidden) c. cell rnn ct (encode c) hidden) s seed)) = H"
    using length_cell [OF shape] by (simp_all add: case_prod_beta)
qed

lemma generate_eq:
  assumes shape: "RNN_shape (length cats) n_letters H n_letters rnn"
    and ct: "categoryTensor cats category = Inr ct" and seed: "start_letters \<noteq> []"
  shows "generate rnn cats max_length output0 start_letters category =
     Inr (start_letters @ map ((!) all_letters)
            (greedy_decode rnn ct max_length (fst (warm_up rnn ct start_letters))
               (snd (warm_up rnn ct start_letters))))"
proof -
  have lc: "length ct = length cats" using ct by (rule categoryTensor_length)
  have hs: "hidden_size rnn = H" using shape by (simp add: RNN_shape_def)
  have lh: "length (initHidden rnn) = H" by (simp add: initHidden_def zeros_def hs)
  have fd: "feed_loop rnn ct start_letters [0 ..< length start_letters] output0 (initHidden rnn) =
        Inr (Some (fst (warm_up rnn ct start_letters)), snd (warm_up rnn ct start_letters))"
    using feed_loop_eq [OF shape lc lh, of "[]" start_letters output0 "[]"] seed
    by (simp add: warm_up_def initHidden_def)
  have lo: "length (fst (warm_up rnn ct start_letters)) = n_letters"
    and lh': "length (snd (warm_up rnn ct start_letters)) = H"
    unfolding warm_up_def using shape seed by (rule warm_up_lengths)+
  show ?thesis
    by (simp add: generate_def ct fd decode_loop_eq [OF shape lc lo lh'])
qed

lemma sample_word_eq:
  assumes shape: "RNN_shape (length cats) n_letters H n_letters rnn"
    and ct: "categoryTensor cats category = Inr ct" and seed: "start_letter \<noteq> []"
  shows "sample_word rnn cats max_length start_letter category =
     Inr (start_letter @ map ((!) all_letters)
            (greedy_decode rnn ct max_length
               (fst (cell rnn ct (encode (hd start_letter)) (zeros H)))
               (snd (cell rnn ct (encode (hd start_letter)) (zeros H)))))"
proof -
  have lc: "length ct = length cats" using ct by (rule categoryTensor_length)
  have hs: "hidden_size rnn = H" using shape by (simp add: RNN_shape_def)
  have lh: "length (zeros H :: 'a list) = H" by (simp add: zeros_def)
  from seed obtain c cs where s: "start_letter = c # cs" by (cases start_letter) auto
  have le: "length (encode c :: 'a list) = n_letters" by simp
  show ?thesis
    using sample_loop_eq [OF shape lc le lh, of max_length "map encode cs" start_letter]
    by (simp add: sample_word_def ct inputTensor_encode s initHidden_def hs)
qed

text \<open>
  The example cells: all weights are zero, so the output of every step is the bias of
  the last layer, and the decoder's choice is the same symbol at every step.
\<close>

lemma dot_zero: "dot (replicate n 0) x = (0::real)"
proof -
  have "foldl (+) a (map2 (*) (replicate n 0) x) = (a::real)" for a
    by (induction n arbitrary: x a) (simp, case_tac x, simp_all)
  then show ?thesis by (simp add: dot_def)
qed

lemma affine_zero_bias:
  "length b = n_out \<Longrightarrow> affine ((zero_Linear n_in n_out)\<lparr>bias := b\<rparr>) x = (b :: real list)"
  by (rule nth_equalityI) (simp_all add: affine_def zero_Linear_def dot_zero)

lemma affine_zero: "affine (zero_Linear n_in n_out) x = replicate n_out (0::real)"
  by (rule nth_equalityI) (simp_all add: affine_def zero_Linear_def dot_zero)

lemma cell_example: "cell (example_rnn k) ct x hidden = (one_hot 57 k, replicate 128 0)"
  by (simp add: cell_def example_rnn_def affine_zero affine_zero_bias)

lemma greedy_decode_example_eos:
  "greedy_decode (example_rnn k) ct n (one_hot 57 56) hidden = []"
  using argmax_one_hot [of 56 57, where 'a = real] argmax_eq [of "one_hot 57 56 :: real list"]
  by (cases n) (auto simp: eos_index_def n_letters_57 one_hot_def)

lemma greedy_decode_example_letter:
  assumes "k < 56"
  shows "greedy_decode (example_rnn k) ct n (one_hot 57 k) hidden = replicate n k"
proof (induction n arbitrary: hidden)
  case 0
  then show ?case by simp
next
  case (Suc n)
  have "one_hot 57 k \<noteq> ([] :: real list)" by (simp add: one_hot_def)
  from argmax_eq [OF this] argmax_one_hot [of k 57, where 'a = real] assms
  have "argmax_index (one_hot 57 k :: real list) = k" by simp
  with assms Suc.IH show ?case by (simp add: eos_index_def n_letters_57 cell_example)
qed

lemma example_category: "categoryTensor example_categories ''German'' = Inr (one_hot 3 1)"
  by (simp add: categoryTensor_def example_categories_def list_index_def setitem_def
      norm_index_def zeros_def one_hot_def numeral_3_eq_3)

lemma example_shape: "k < 57 \<Longrightarrow>
  RNN_shape (length example_categories) n_letters 128 n_letters (example_rnn k)"
proof -
  have "length example_categories = 3" by (simp add: example_categories_def)
  then show "k < 57 \<Longrightarrow> ?thesis" using example_rnn_shape [of k] by (simp add: n_letters_57)
qed

lemma warm_up_example:
  "seed \<noteq> [] \<Longrightarrow> warm_up (example_rnn k) ct seed = (one_hot 57 k, replicate 128 0)"
  by (cases seed rule: rev_cases) (simp_all add: warm_up_def cell_example case_prod_beta)

lemma replicate_20_a: "replicate 20 (all_letters ! 0) = ''aaaaaaaaaaaaaaaaaaaa''"
  by (simp add: all_letters_unfold numeral_eq_Suc)

text \<open>
  The example cells run. From the seed \<open>B\<close> the cell that always scores \<open>a\<close> highest
  generates 20 letters and stops at the length bound; the cell that always scores
  index 56 highest stops at once and returns the seed.
\<close>

lemma example_generate:
  "generate (example_rnn 0) example_categories 20 None ''B'' ''German'' =
     Inr ''Baaaaaaaaaaaaaaaaaaaa''"
  using generate_eq [OF example_shape [of 0] example_category, of "''B''" 20 None]
  by (simp add: warm_up_example greedy_decode_example_letter replicate_20_a)

lemma example_generate_eos:
  "generate (example_rnn 56) example_categories 20 None ''Mer'' ''German'' = Inr ''Mer''"
  using generate_eq [OF example_shape [of 56] example_category, of "''Mer''" 20 None]
  by (simp add: warm_up_example greedy_decode_example_eos)


lemma example_sample_word_eos:
  "sample_word (example_rnn 56) example_categories 20 ''B'' ''German'' = Inr ''B''"
  using sample_word_eq [OF example_shape [of 56] example_category, of "''B''" 20]
  by (simp add: cell_example greedy_decode_example_eos)


section \<open>Word generation: greedy decoding, termination, the end marker\<close>

text \<open>
  Claim C3. With a cell of the notebook's shape, a known category and a non-empty seed,
  \<open>generate\<close> raises no error and returns the seed followed by the symbols of the
  indices that \<open>greedy_decode\<close> produces from the output and hidden state left by the
  seed: every iteration selects the argmax index of the current output, stops without
  appending at the end-of-sequence index, and otherwise appends the symbol, feeds its
  one-hot vector to the cell with the current hidden state and goes on with the new
  output and hidden state. \<open>sample_word\<close> does the same from the state that the first
  seed symbol leaves.
\<close>

theorem generate_is_greedy:
  assumes "RNN_shape (length cats) n_letters H n_letters rnn"
    and "category \<in> set cats" and "seed \<noteq> []"
  shows "\<exists>ct. categoryTensor cats category = Inr ct \<and> length ct = length cats \<and>
     generate rnn cats max_length output0 seed category =
       Inr (seed @ map ((!) all_letters)
              (case warm_up rnn ct seed of
                 (out, hidden) \<Rightarrow> greedy_decode rnn ct max_length out hidden)) \<and>
     sample_word rnn cats max_length seed category =
       Inr (seed @ map ((!) all_letters)
              (case cell rnn ct (encode (hd seed)) (zeros H) of
                 (out, hidden) \<Rightarrow> greedy_decode rnn ct max_length out hidden))"
proof -
  from categoryTensor_known [OF assms(2)] obtain ct where
    ct: "categoryTensor cats category = Inr (ct :: 'a list)" by blast
  from generate_eq [OF assms(1) ct assms(3)] sample_word_eq [OF assms(1) ct assms(3)]
    categoryTensor_length [OF ct] ct
  show ?thesis by (auto simp: case_prod_beta)
qed

text \<open>
  Claim C3 on the example cell whose highest score is always the letter \<open>a\<close>, category
  \<open>German\<close>, seed \<open>Mer\<close> and 20 iterations.
\<close>

theorem generate_is_greedy_witness:
  "RNN_shape (length example_categories) n_letters 128 n_letters (example_rnn 0) \<and>
   ''German'' \<in> set example_categories \<and> ''Mer'' \<noteq> [] \<and>
   (\<exists>ct. categoryTensor example_categories ''German'' = Inr ct \<and>
     length ct = length example_categories \<and>
     generate (example_rnn 0) example_categories 20 None ''Mer'' ''German'' =
       Inr (''Mer'' @ map ((!) all_letters)
              (case warm_up (example_rnn 0) ct ''Mer'' of
                 (out, hidden) \<Rightarrow> greedy_decode (example_rnn 0) ct 20 out hidden)) \<and>
     sample_word (example_rnn 0) example_categories 20 ''Mer'' ''German'' =
       Inr (''Mer'' @ map ((!) all_letters)
              (case cell (example_rnn 0) ct (encode (hd ''Mer'')) (zeros 128) of
                 (out, hidden) \<Rightarrow> greedy_decode (example_rnn 0) ct 20 out hidden)))"
proof -
  have s: "RNN_shape (length example_categories) n_letters 128 n_letters (example_rnn 0)"
    by (simp add: example_shape)
  have c: "''German'' \<in> set example_categories" by (simp add: example_categories_def)
  have n: "''Mer'' \<noteq> []" by simp
  from s c n generate_is_greedy [OF s c n, of 20 None] show ?thesis by blast
qed

text \<open>
  Claim C4. For every known category, every seed of length at least one and every
  \<open>max_length\<close>, \<open>generate\<close> and \<open>sample_word\<close> return a string, not an error (both are
  total functions, so they terminate), and the string is at least as long as the seed
  and at most \<open>max_length\<close> longer.
\<close>

theorem generate_terminates_bounded:
  assumes "RNN_shape (length cats) n_letters H n_letters rnn"
    and "category \<in> set cats" and "seed \<noteq> []"
  shows "(\<exists>w. generate rnn cats max_length output0 seed category = Inr w \<and>
        length seed \<le> length w \<and> length w \<le> length seed + max_length) \<and>
     (\<exists>w. sample_word rnn cats max_length seed category = Inr w \<and>
        length seed \<le> length w \<and> length w \<le> length seed + max_length)"
proof -
  from categoryTensor_known [OF assms(2)] obtain ct where
    ct: "categoryTensor cats category = Inr (ct :: 'a list)" by blast
  show ?thesis
    using generate_eq [OF assms(1) ct assms(3), of max_length output0]
      sample_word_eq [OF assms(1) ct assms(3), of max_length]
      length_greedy_decode [of rnn ct max_length]
    by simp
qed

text \<open>
  Claim C4 at the spec's scenario: seed \<open>B\<close>, category \<open>German\<close>, \<open>max_length = 20\<close>, on
  the example cell.
\<close>

theorem generate_terminates_bounded_witness:
  "RNN_shape (length example_categories) n_letters 128 n_letters (example_rnn 0) \<and>
   ''German'' \<in> set example_categories \<and> ''B'' \<noteq> [] \<and>
   (\<exists>w. generate (example_rnn 0) example_categories 20 None ''B'' ''German'' = Inr w \<and>
        length ''B'' \<le> length w \<and> length w \<le> length ''B'' + 20) \<and>
   (\<exists>w. sample_word (example_rnn 0) example_categories 20 ''B'' ''German'' = Inr w \<and>
        length ''B'' \<le> length w \<and> length w \<le> length ''B'' + 20)"
proof -
  have s: "RNN_shape (length example_categories) n_letters 128 n_letters (example_rnn 0)"
    by (simp add: example_shape)
  have c: "''German'' \<in> set example_categories" by (simp add: example_categories_def)
  have n: "''B'' \<noteq> []" by simp
  from s c n generate_terminates_bounded [OF s c n, of 20 None] show ?thesis by blast
qed




section \<open>The generation trainer: one call\<close>

text \<open>
  The loop of \<open>train\<close> on rows of the right width and targets in range: it raises
  nothing, and its graph, losses, calls and outputs are those of \<open>teacher_forced\<close>.
\<close>

lemma map_fst_teacher_forced: "map fst (teacher_forced rnn ct xs hidden) = xs"
  by (induction xs arbitrary: hidden) (simp_all add: case_prod_beta)

lemma length_teacher_forced: "length (teacher_forced rnn ct xs hidden) = length xs"
  by (induction xs arbitrary: hidden) (simp_all add: case_prod_beta)

lemma criterion_in_range:
  "0 \<le> t \<Longrightarrow> t < int (length out) \<Longrightarrow> criterion crit out t = Inr (crit out t)"
  by (simp add: criterion_def)

lemma train_loop_eq:
  assumes shape: "RNN_shape C V H W rnn" and ct: "length ct = C"
  shows "\<forall>x \<in> set rest. length x = V \<Longrightarrow> length hidden = H \<Longrightarrow>
     length tgt = length (pre @ rest) \<Longrightarrow> \<forall>t \<in> set tgt. 0 \<le> t \<and> t < int W \<Longrightarrow>
     \<exists>hidden'.
       train_loop crit rnn ct (pre @ rest) tgt [length pre ..< length (pre @ rest)]
         (out, hidden, loss, calls) =
       Inr (if rest = [] then out
            else Some (snd (snd (last (teacher_forced rnn ct rest hidden)))),
            hidden',
            foldl (\<lambda>acc (c, x, h, out, t).
                     Some (case acc of
                             None \<Rightarrow> (crit out t + 0, [(c, x, h, out, t)])
                           | Some (s, tape) \<Rightarrow> (s + crit out t, tape @ [(c, x, h, out, t)])))
              loss
              (map2 (\<lambda>(x, h, out) t. (ct, x, h, out, t)) (teacher_forced rnn ct rest hidden)
                 (drop (length pre) tgt)),
            calls @ concat (map2 (\<lambda>(x, h, out) t. [CellStep ct x h, Criterion out t])
                 (teacher_forced rnn ct rest hidden) (drop (length pre) tgt)))"
proof (induction rest arbitrary: pre out hidden loss calls)
  case Nil
  then show ?case by simp
next
  case (Cons x rest)
  let ?o = "fst (cell rnn ct x hidden)" and ?h = "snd (cell rnn ct x hidden)"
  let ?t = "tgt ! length pre"
  let ?loss = "Some (case loss of
                       None \<Rightarrow> (crit ?o ?t + 0, [(ct, x, hidden, ?o, ?t)])
                     | Some (s, tape) \<Rightarrow> (s + crit ?o ?t, tape @ [(ct, x, hidden, ?o, ?t)]))"
  let ?calls = "calls @ [CellStep ct x hidden, Criterion ?o ?t]"
  have r: "[length pre ..< length (pre @ x # rest)] =
           length pre # [length (pre @ [x]) ..< length ((pre @ [x]) @ rest)]"
    by (rule upt_append_Cons)
  have g: "getitem (pre @ x # rest) (int (length pre)) = Inr x"
    by (simp add: getitem_nat)
  have f: "forward rnn ct x hidden = Inr (?o, ?h)"
    using forward_eq [OF shape ct _ Cons.prems(2), of x] Cons.prems(1) by simp
  have lo: "length ?o = W" and lh: "length ?h = H"
    using length_cell [OF shape] by simp_all
  have lt: "length pre < length tgt" using Cons.prems(3) by simp
  then have gt: "getitem tgt (int (length pre)) = Inr ?t" by (simp add: getitem_nat)
  have "?t \<in> set tgt" using lt by simp
  with Cons.prems(4) have "0 \<le> ?t" and "?t < int (length ?o)" by (simp_all add: lo)
  then have c: "criterion crit ?o ?t = Inr (crit ?o ?t)" by (rule criterion_in_range)
  have d: "drop (length pre) tgt = ?t # drop (length (pre @ [x])) tgt"
    using lt by (simp add: Cons_nth_drop_Suc)
  have e: "pre @ x # rest = (pre @ [x]) @ rest" by simp
  have v: "\<forall>x \<in> set rest. length x = V" using Cons.prems(1) by simp
  have lt': "length tgt = length ((pre @ [x]) @ rest)" using Cons.prems(3) by simp
  have step: "train_loop crit rnn ct (pre @ x # rest) tgt [length pre ..< length (pre @ x # rest)]
          (out, hidden, loss, calls) =
        train_loop crit rnn ct ((pre @ [x]) @ rest) tgt
          [length (pre @ [x]) ..< length ((pre @ [x]) @ rest)] (Some ?o, ?h, ?loss, ?calls)"
    by (simp only: r train_loop.simps prod.case g f gt c sum.case) (simp only: e)
  from Cons.IH [OF v lh lt' Cons.prems(4), of "Some ?o" ?loss ?calls]
  obtain hidden' where
    ih: "train_loop crit rnn ct ((pre @ [x]) @ rest) tgt
          [length (pre @ [x]) ..< length ((pre @ [x]) @ rest)] (Some ?o, ?h, ?loss, ?calls) =
       Inr (if rest = [] then Some ?o
            else Some (snd (snd (last (teacher_forced rnn ct rest ?h)))),
            hidden',
            foldl (\<lambda>acc (c, x, h, out, t).
                     Some (case acc of
                             None \<Rightarrow> (crit out t + 0, [(c, x, h, out, t)])
                           | Some (s, tape) \<Rightarrow> (s + crit out t, tape @ [(c, x, h, out, t)])))
              ?loss
              (map2 (\<lambda>(x, h, out) t. (ct, x, h, out, t)) (teacher_forced rnn ct rest ?h)
                 (drop (length (pre @ [x])) tgt)),
            ?calls @ concat (map2 (\<lambda>(x, h, out) t. [CellStep ct x h, Criterion out t])
                 (teacher_forced rnn ct rest ?h) (drop (length (pre @ [x])) tgt)))"
    by blast
  have tf: "teacher_forced rnn ct (x # rest) hidden =
        (x, hidden, ?o) # teacher_forced rnn ct rest ?h"
    by (simp add: case_prod_beta)
  have ne: "rest \<noteq> [] \<Longrightarrow> teacher_forced rnn ct rest ?h \<noteq> []"
    using length_teacher_forced [of rnn ct rest ?h] by auto
  show ?case
    unfolding step ih tf d
    by (rule exI [of _ hidden']) (simp add: ne)
qed

lemma fold_loss_Some:
  "foldl (\<lambda>acc (c, x, h, out, t).
            Some (case acc of
                    None \<Rightarrow> (crit out t + 0, [(c, x, h, out, t)])
                  | Some (s, tape) \<Rightarrow> (s + crit out t, tape @ [(c, x, h, out, t)])))
     (Some (s, tape)) nodes =
   Some (foldl (+) s (map (\<lambda>(c, x, h, out, t). crit out t) nodes), tape @ nodes)"
  by (induction nodes arbitrary: s tape) (simp_all add: case_prod_beta)

lemma fold_loss_None:
  "nodes \<noteq> [] \<Longrightarrow>
   foldl (\<lambda>acc (c, x, h, out, t).
            Some (case acc of
                    None \<Rightarrow> (crit out t + 0, [(c, x, h, out, t)])
                  | Some (s, tape) \<Rightarrow> (s + crit out t, tape @ [(c, x, h, out, t)])))
     None nodes =
   Some (foldl (+) (hd (map (\<lambda>(c, x, h, out, t). crit out t) nodes) + 0)
           (tl (map (\<lambda>(c, x, h, out, t). crit out t) nodes)), nodes)"
  by (cases nodes) (simp_all add: fold_loss_Some case_prod_beta)

lemma targetTensor_known:
  assumes "set line \<subseteq> set all_letters"
  shows "targetTensor line = map (\<lambda>c. int (letter_pos c)) (tl line) @ [56]"
proof -
  have "str_find all_letters c = int (letter_pos c)" if "c \<in> set (tl line)" for c
  proof -
    from that assms have "c \<in> set all_letters" by (cases line) auto
    then show ?thesis by (simp add: str_find_in letter_pos_def)
  qed
  then show ?thesis by (simp add: targetTensor_eq n_letters_57)
qed

lemma length_targetTensor: "line \<noteq> [] \<Longrightarrow> length (targetTensor line) = length line"
  by (simp add: targetTensor_eq)

lemma targetTensor_range:
  assumes "set line \<subseteq> set all_letters"
  shows "\<forall>t \<in> set (targetTensor line). 0 \<le> t \<and> t < int n_letters"
  using letter_pos_less by (auto simp: targetTensor_known [OF assms] n_letters_57)

lemma count_tape_calls:
  "length (filter is_CellStep
     (concat (map (\<lambda>(c, x, h, out, t). [CellStep c x h, Criterion out t]) tape))) =
     length tape \<and>
   length (filter is_Criterion
     (concat (map (\<lambda>(c, x, h, out, t). [CellStep c x h, Criterion out t]) tape))) =
     length tape \<and>
   filter is_Backward
     (concat (map (\<lambda>(c, x, h, out, t). [CellStep c x h, Criterion out t]) tape)) = [] \<and>
   filter is_OptimizerStep
     (concat (map (\<lambda>(c, x, h, out, t). [CellStep c x h, Criterion out t]) tape)) = [] \<and>
   filter is_ZeroGrad
     (concat (map (\<lambda>(c, x, h, out, t). [CellStep c x h, Criterion out t]) tape)) = []"
  by (induction tape) (simp_all add: case_prod_beta)

lemma concat_tape_calls:
  "concat (map2 (\<lambda>(x, h, out) t. [CellStep ct x h, Criterion out t]) steps tgt) =
   concat (map (\<lambda>(c, x, h, out, t). [CellStep c x h, Criterion out t])
             (map2 (\<lambda>(x, h, out) t. (ct, x, h, out, t)) steps tgt))"
proof (induction steps arbitrary: tgt)
  case Nil
  then show ?case by simp
next
  case (Cons s steps)
  then show ?case by (cases tgt) (simp_all add: case_prod_beta)
qed

text \<open>
  The state operations other than \<open>optimizer_step\<close> leave the parameters, the momentum
  buffers and the update counter as they are.
\<close>

lemma zero_grad_keeps:
  "cell_params (zero_grad st) = cell_params st \<and>
   momentum_buffer (zero_grad st) = momentum_buffer st \<and>
   n_updates (zero_grad st) = n_updates st"
  by (simp add: zero_grad_def)

lemma backward_keeps:
  "cell_params (backward autograd loss st) = cell_params st \<and>
   momentum_buffer (backward autograd loss st) = momentum_buffer st \<and>
   n_updates (backward autograd loss st) = n_updates st"
  by (simp add: backward_def Let_def)

text \<open>
  With the hyperparameters of \<open>torch.optim.SGD(params, lr=...)\<close> a step on allocated
  gradients is the plain update \<open>p + (- lr) * grad\<close>: no weight decay, no momentum
  buffer is read or written.
\<close>

lemma optimizer_step_plain:
  "cell_grads st = Some grad \<Longrightarrow>
   optimizer_step (SGD_init lr_value) st =
     st\<lparr>cell_params := map2_RNN (\<lambda>p d. p + (- lr_value) * d) (cell_params st) grad,
        n_updates := Suc (n_updates st),
        call_log := call_log st @ [OptimizerStep]\<rparr>"
  by (simp add: optimizer_step_def SGD_init_def)

lemma train_eq:
  assumes shape: "RNN_shape C n_letters H n_letters (cell_params st)" and ct: "length ct = C"
    and inp: "inp \<noteq> []" "\<forall>x \<in> set inp. length x = n_letters"
    and tgt: "length tgt = length inp" "\<forall>t \<in> set tgt. 0 \<le> t \<and> t < int n_letters"
    and tape: "tape = map2 (\<lambda>(x, h, out) t. (ct, x, h, out, t))
                        (teacher_forced (cell_params st) ct inp (zeros H)) tgt"
    and total: "total_loss = foldl (+) (hd (map (\<lambda>(c, x, h, out, t). crit out t) tape) + 0)
                          (tl (map (\<lambda>(c, x, h, out, t). crit out t) tape))"
  shows "train crit autograd optimizer st ct inp tgt =
     Inr ((snd (snd (last (teacher_forced (cell_params st) ct inp (zeros H)))),
           total_loss / scalar_of_nat (length inp)),
          optimizer_step optimizer
            (backward autograd (total_loss, tape)
               ((zero_grad st)\<lparr>call_log := call_log st @ ZeroGrad #
                  concat (map (\<lambda>(c, x, h, out, t). [CellStep c x h, Criterion out t]) tape)\<rparr>)))"
proof -
  let ?p = "cell_params st"
  have hs: "hidden_size ?p = H" using shape by (simp add: RNN_shape_def)
  have lh: "length (zeros H :: 'a list) = H" by (simp add: zeros_def)
  have lt: "length tgt = length ([] @ inp)" using tgt(1) by simp
  from train_loop_eq [OF shape ct inp(2) lh lt tgt(2), of crit None None "call_log st @ [ZeroGrad]"]
  obtain hidden' where
    l: "train_loop crit ?p ct inp tgt [0 ..< length inp]
          (None, zeros H, None, call_log st @ [ZeroGrad]) =
       Inr (Some (snd (snd (last (teacher_forced ?p ct inp (zeros H))))),
            hidden',
            foldl (\<lambda>acc (c, x, h, out, t).
                     Some (case acc of
                             None \<Rightarrow> (crit out t + 0, [(c, x, h, out, t)])
                           | Some (s, tape) \<Rightarrow> (s + crit out t, tape @ [(c, x, h, out, t)])))
              None tape,
            (call_log st @ [ZeroGrad]) @
            concat (map (\<lambda>(c, x, h, out, t). [CellStep c x h, Criterion out t]) tape))"
    using inp(1) by (auto simp: tape concat_tape_calls)
  have "tape \<noteq> []"
    using inp(1) tgt(1) length_teacher_forced [of ?p ct inp "zeros H"]
    by (cases inp; cases tgt) (auto simp: tape case_prod_beta)
  from fold_loss_None [OF this, of crit] show ?thesis
    by (simp add: train_def Let_def initHidden_def hs l total zero_grad_def)
qed

text \<open>
  Claim C5, as amended: the claim restricted to words of length \<open>n \<ge> 1\<close> whose
  characters are all in the vocabulary (with a known category and a cell of the
  notebook's shape). One call of the trainer
  \<^item> runs exactly \<open>n\<close> cell steps, whose inputs are the one-hot vectors of the true
    characters in order (teacher forcing: \<open>map fst steps = map encode line\<close>, whatever
    the outputs are), each step starting from the hidden state the step before left;
  \<^item> computes one loss per step, of that step's output against the vocabulary index of
    the next character, the final step against the end-of-sequence index 56;
  \<^item> sums the \<open>n\<close> losses, in order, into one scalar \<open>total_loss\<close>;
  \<^item> backpropagates once, through the graph \<open>tape\<close> of all \<open>n\<close> steps: the log holds
    one \<open>Backward\<close> more than before, and the gradients left are the zeroed ones plus
    \<open>autograd\<close> of this one word's graph, so no other example contributes (no
    batching);
  \<^item> writes the shared parameters exactly once (\<open>n_updates\<close> goes up by one), by the
    plain SGD update \<open>p + (- lr) * grad\<close> entry by entry, and leaves the momentum
    buffers as they were (no momentum).
\<close>

theorem train_example_teacher_forcing:
  assumes "RNN_shape (length cats) n_letters H n_letters (cell_params st)"
    and "category \<in> set cats" and "line \<noteq> []" and "set line \<subseteq> set all_letters"
  shows "\<exists>ct steps tape losses total_loss grad st'.
     categoryTensor cats category = Inr ct \<and>
     steps = teacher_forced (cell_params st) ct (map encode line) (zeros H) \<and>
     length steps = length line \<and> map fst steps = map encode line \<and>
     targetTensor line = map (\<lambda>c. int (letter_pos c)) (tl line) @ [56] \<and>
     length (targetTensor line) = length line \<and>
     tape = map2 (\<lambda>(x, hidden, out) t. (ct, x, hidden, out, t)) steps (targetTensor line) \<and>
     length tape = length line \<and>
     losses = map (\<lambda>(c, x, hidden, out, t). crit out t) tape \<and>
     total_loss = foldl (+) (hd losses + 0) (tl losses) \<and>
     train_example crit autograd (SGD_init lr_value) st cats category line =
       Inr ((snd (snd (last steps)), total_loss / scalar_of_nat (length line)), st') \<and>
     call_log st' = call_log st @ ZeroGrad #
       concat (map (\<lambda>(c, x, hidden, out, t). [CellStep c x hidden, Criterion out t]) tape) @
       [Backward total_loss, OptimizerStep] \<and>
     length (filter is_CellStep (call_log st')) =
       length (filter is_CellStep (call_log st)) + length line \<and>
     length (filter is_Criterion (call_log st')) =
       length (filter is_Criterion (call_log st)) + length line \<and>
     length (filter is_Backward (call_log st')) =
       length (filter is_Backward (call_log st)) + 1 \<and>
     length (filter is_OptimizerStep (call_log st')) =
       length (filter is_OptimizerStep (call_log st)) + 1 \<and>
     grad = (case cell_grads st of
               None \<Rightarrow> autograd (cell_params st) tape
             | Some a \<Rightarrow>
                 map2_RNN (+) (map2_RNN (\<lambda>a b. 0) a a) (autograd (cell_params st) tape)) \<and>
     cell_grads st' = Some grad \<and>
     cell_params st' = map2_RNN (\<lambda>p d. p + (- lr_value) * d) (cell_params st) grad \<and>
     momentum_buffer st' = momentum_buffer st \<and>
     n_updates st' = Suc (n_updates st)"
proof -
  from categoryTensor_known [OF assms(2)] obtain ct where
    ct: "categoryTensor cats category = Inr (ct :: 'a list)" by blast
  have lc: "length ct = length cats" using ct by (rule categoryTensor_length)
  define steps where "steps = teacher_forced (cell_params st) ct (map encode line) (zeros H)"
  define tape where
    "tape = map2 (\<lambda>(x, hidden, out) t. (ct, x, hidden, out, t)) steps (targetTensor line)"
  define losses where "losses = map (\<lambda>(c, x, hidden, out, t). crit out t) tape"
  define total_loss where "total_loss = foldl (+) (hd losses + 0) (tl losses)"
  define grad where
    "grad = (case cell_grads st of
               None \<Rightarrow> autograd (cell_params st) tape
             | Some a \<Rightarrow>
                 map2_RNN (+) (map2_RNN (\<lambda>a b. 0) a a) (autograd (cell_params st) tape))"
  define log2 where
    "log2 = call_log st @ ZeroGrad #
       concat (map (\<lambda>(c, x, hidden, out, t). [CellStep c x hidden, Criterion out t]) tape)"
  define st2 where
    "st2 = backward autograd (total_loss, tape) ((zero_grad st)\<lparr>call_log := log2\<rparr>)"
  define st' where "st' = optimizer_step (SGD_init lr_value) st2"
  have ls: "length steps = length line" by (simp add: steps_def length_teacher_forced)
  have lt: "length (targetTensor line) = length line"
    using assms(3) by (rule length_targetTensor)
  have ltape: "length tape = length line" by (simp add: tape_def ls lt)
  have ne: "map encode line \<noteq> ([] :: 'a list list)" using assms(3) by simp
  have rows: "\<forall>x \<in> set (map encode line :: 'a list list). length x = n_letters" by simp
  have lt': "length (targetTensor line) = length (map encode line :: 'a list list)"
    using lt by simp
  have tr: "train_example crit autograd (SGD_init lr_value) st cats category line =
      train crit autograd (SGD_init lr_value) st ct (map encode line) (targetTensor line)"
    by (simp add: train_example_def ct inputTensor_encode)
  have run: "train_example crit autograd (SGD_init lr_value) st cats category line =
      Inr ((snd (snd (last steps)), total_loss / scalar_of_nat (length line)), st')"
    unfolding tr st'_def st2_def log2_def
    using train_eq [OF assms(1) lc ne rows lt' targetTensor_range [OF assms(4)],
        of tape total_loss crit autograd "SGD_init lr_value"]
    by (simp add: tape_def steps_def total_loss_def losses_def)
  have g2: "cell_grads st2 = Some grad"
    by (cases "cell_grads st")
      (simp_all add: st2_def grad_def backward_def zero_grad_def Let_def)
  have k2: "cell_params st2 = cell_params st" "momentum_buffer st2 = momentum_buffer st"
    "n_updates st2 = n_updates st" "call_log st2 = log2 @ [Backward total_loss]"
    by (simp_all add: st2_def backward_def zero_grad_def Let_def)
  have fin: "st' = st2\<lparr>cell_params := map2_RNN (\<lambda>p d. p + (- lr_value) * d) (cell_params st2) grad,
        n_updates := Suc (n_updates st2),
        call_log := call_log st2 @ [OptimizerStep]\<rparr>"
    unfolding st'_def using g2 by (rule optimizer_step_plain)
  have log: "call_log st' = call_log st @ ZeroGrad #
       concat (map (\<lambda>(c, x, hidden, out, t). [CellStep c x hidden, Criterion out t]) tape) @
       [Backward total_loss, OptimizerStep]"
    by (simp add: fin k2 log2_def)
  note k = count_tape_calls [of tape, unfolded ltape]
  show ?thesis
    apply (rule exI [of _ ct])
    apply (rule exI [of _ steps])
    apply (rule exI [of _ tape])
    apply (rule exI [of _ losses])
    apply (rule exI [of _ total_loss])
    apply (rule exI [of _ grad])
    apply (rule exI [of _ st'])
    apply (intro conjI)
                        apply (rule ct)
                       apply (rule steps_def)
                      apply (rule ls)
                     apply (simp add: steps_def map_fst_teacher_forced)
                    apply (rule targetTensor_known [OF assms(4)])
                   apply (rule lt)
                  apply (rule tape_def)
                 apply (rule ltape)
                apply (rule losses_def)
               apply (rule total_loss_def)
              apply (rule run)
             apply (rule log)
            apply (simp add: log k)
           apply (simp add: log k)
          apply (simp add: log k)
         apply (simp add: log k)
        apply (rule grad_def)
       apply (simp add: fin g2)
      apply (simp add: fin k2)
     apply (simp add: fin k2)
    apply (simp add: fin k2)
    done
qed

text \<open>
  Claim C5 as amended, on the example cell with unallocated gradients, learning rate
  0.005, category \<open>German\<close> and the word \<open>Kim\<close>.
\<close>

theorem train_example_teacher_forcing_witness:
  "RNN_shape (length example_categories) n_letters 128 n_letters (cell_params example_trainer) \<and>
   ''German'' \<in> set example_categories \<and> ''Kim'' \<noteq> [] \<and> set ''Kim'' \<subseteq> set all_letters \<and>
   (\<exists>ct steps tape losses total_loss grad st'.
     categoryTensor example_categories ''German'' = Inr ct \<and>
     steps = teacher_forced (cell_params example_trainer) ct (map encode ''Kim'') (zeros 128) \<and>
     length steps = length ''Kim'' \<and> map fst steps = map encode ''Kim'' \<and>
     targetTensor ''Kim'' = map (\<lambda>c. int (letter_pos c)) (tl ''Kim'') @ [56] \<and>
     length (targetTensor ''Kim'') = length ''Kim'' \<and>
     tape = map2 (\<lambda>(x, hidden, out) t. (ct, x, hidden, out, t)) steps (targetTensor ''Kim'') \<and>
     length tape = length ''Kim'' \<and>
     losses = map (\<lambda>(c, x, hidden, out, t). example_crit out t) tape \<and>
     total_loss = foldl (+) (hd losses + 0) (tl losses) \<and>
     train_example example_crit example_autograd (SGD_init (5 / 1000)) example_trainer
         example_categories ''German'' ''Kim'' =
       Inr ((snd (snd (last steps)), total_loss / scalar_of_nat (length ''Kim'')), st') \<and>
     call_log st' = call_log example_trainer @ ZeroGrad #
       concat (map (\<lambda>(c, x, hidden, out, t). [CellStep c x hidden, Criterion out t]) tape) @
       [Backward total_loss, OptimizerStep] \<and>
     length (filter is_CellStep (call_log st')) =
       length (filter is_CellStep (call_log example_trainer)) + length ''Kim'' \<and>
     length (filter is_Criterion (call_log st')) =
       length (filter is_Criterion (call_log example_trainer)) + length ''Kim'' \<and>
     length (filter is_Backward (call_log st')) =
       length (filter is_Backward (call_log example_trainer)) + 1 \<and>
     length (filter is_OptimizerStep (call_log st')) =
       length (filter is_OptimizerStep (call_log example_trainer)) + 1 \<and>
     grad = (case cell_grads example_trainer of
               None \<Rightarrow> example_autograd (cell_params example_trainer) tape
             | Some a \<Rightarrow>
                 map2_RNN (+) (map2_RNN (\<lambda>a b. 0) a a)
                   (example_autograd (cell_params example_trainer) tape)) \<and>
     cell_grads st' = Some grad \<and>
     cell_params st' =
       map2_RNN (\<lambda>p d. p + (- (5 / 1000)) * d) (cell_params example_trainer) grad \<and>
     momentum_buffer st' = momentum_buffer example_trainer \<and>
     n_updates st' = Suc (n_updates example_trainer))"
proof -
  have s: "RNN_shape (length example_categories) n_letters 128 n_letters
             (cell_params example_trainer)"
    by (simp add: example_trainer_def example_shape)
  have c: "''German'' \<in> set example_categories" by (simp add: example_categories_def)
  have n: "''Kim'' \<noteq> []" by simp
  have v: "set ''Kim'' \<subseteq> set all_letters" by (simp add: all_letters_unfold)
  from train_example_teacher_forcing [OF s c n v, of example_crit example_autograd "5 / 1000"]
    s c n v
  show ?thesis by (intro conjI)
qed

text \<open>
  Claim C5 as stated fails on the empty word: the loop body never runs, \<open>loss\<close> is still
  the integer \<open>0\<close>, and \<open>loss.backward()\<close> raises before anything is backpropagated or
  written. It also fails on a word with a character outside the vocabulary after its
  first position, whose target index is \<open>-1\<close>: the criterion raises at that step.
\<close>

theorem train_example_counterexample:
  "train_example example_crit example_autograd (SGD_init (5 / 1000)) example_trainer
       example_categories ''German'' '''' =
     Inl AttributeError \<and>
   train_example example_crit example_autograd (SGD_init (5 / 1000)) example_trainer
       example_categories ''German'' ''a!'' =
     Inl IndexError"
proof -
  have p: "cell_params (zero_grad example_trainer) = example_rnn 0"
    "cell_params example_trainer = example_rnn 0"
    by (simp_all add: zero_grad_def example_trainer_def)
  have f: "forward (example_rnn 0) (one_hot 3 1) (encode (CHR ''a'')) (replicate 128 0) =
     Inr (one_hot 57 0, replicate 128 0)"
    using forward_eq [OF example_rnn_shape [of 0], of "one_hot 3 1" "encode (CHR ''a'')"
        "replicate 128 0"]
    by (simp add: cell_example n_letters_57)
  have t: "targetTensor ''a!'' = [- 1, 56]"
    by (simp add: targetTensor_eq str_find_notin all_letters_unfold n_letters_57)
  have u: "[0 ..< length [encode (CHR ''a'') :: real list, encode (CHR ''!'')]] = [0, 1]"
    by (simp add: upt_conv_Cons)
  have e: "train_example example_crit example_autograd (SGD_init (5 / 1000)) example_trainer
       example_categories ''German'' '''' = Inl AttributeError"
    by (simp add: train_example_def example_category inputTensor_encode train_def)
  have l: "train_loop example_crit (example_rnn 0) (one_hot 3 1)
         [encode (CHR ''a''), encode (CHR ''!'')] [- 1, 56] [0, 1]
         (None, replicate 128 0, None, calls) = Inl IndexError" for calls
    by (simp add: getitem_zero f criterion_def del: One_nat_def)
  have h: "initHidden (example_rnn 0) = replicate 128 0"
    by (simp add: initHidden_def example_rnn_def zeros_def)
  have tr: "train example_crit example_autograd opt example_trainer
         (one_hot 3 1) [encode (CHR ''a''), encode (CHR ''!'')] [- 1, 56] = Inl IndexError"
    for opt
    unfolding train_def Let_def p h u l by simp
  have i: "train_example example_crit example_autograd (SGD_init (5 / 1000)) example_trainer
       example_categories ''German'' ''a!'' = Inl IndexError"
    by (simp add: train_example_def example_category inputTensor_encode t tr del: One_nat_def)
  from e i show ?thesis by (rule conjI)
qed

text \<open>
  The empty word fails in the same way for every cell, state and optimizer, as soon as
  the category is known.
\<close>

lemma train_example_empty_word:
  assumes "category \<in> set cats"
  shows "train_example crit autograd optimizer st cats category [] = Inl AttributeError"
proof -
  from categoryTensor_known [OF assms] obtain ct where
    "categoryTensor cats category = Inr (ct :: 'a list)" by blast
  then show ?thesis by (simp add: train_example_def inputTensor_encode train_def)
qed

end
